theory Spec2Isabelle
  imports Complex_Main "HOL-Library.Word"
begin

unbundle bit_operations_syntax

section \<open>Machine types of the sketches\<close>

text \<open>
  The sketches are built for an AVR board (they include \<open>avr/eeprom.h\<close> and \<open>avr/wdt.h\<close>):
  \<open>byte\<close> is 8 bits, \<open>int\<close> and \<open>unsigned int\<close> are 16 bits, \<open>long\<close> and
  \<open>unsigned long\<close> are 32 bits, and a struct has no padding.
\<close>

type_synonym byte = "8 word"
type_synonym uint = "16 word"
type_synonym ulong = "32 word"

section \<open>The checksum: \<open>crc8block\<close>\<close>

text \<open>
  One round of the inner loop:
  \<^verbatim>\<open>crc = (crc & 0x80) ? (crc << 1) ^ 0x31 : crc << 1;\<close>
  The operands are promoted to the 16-bit \<open>int\<close>, and the assignment cuts the result
  back to a byte.
\<close>

definition crc8_shift :: "byte \<Rightarrow> byte" where
  "crc8_shift crc =
     (if crc AND 0x80 \<noteq> 0
      then ucast (push_bit 1 (ucast crc :: uint) XOR 0x31)
      else ucast (push_bit 1 (ucast crc :: uint)))"

text \<open>\<^verbatim>\<open>for (i = 0; i < 8; i++) crc = ...;\<close>\<close>

function crc8_for :: "nat \<Rightarrow> byte \<Rightarrow> byte" where
  "crc8_for i crc = (if i < 8 then crc8_for (i + 1) (crc8_shift crc) else crc)"
  by pat_completeness auto
termination
  by (relation "measure (\<lambda>(i, crc). 8 - i)") auto

text \<open>
  \<^verbatim>\<open>while (len--) { crc ^= *pcBlock++; for ... }\<close>
  over the bytes that the pointer walks through.
\<close>

fun crc8_while :: "byte \<Rightarrow> byte list \<Rightarrow> byte" where
  "crc8_while crc [] = crc"
| "crc8_while crc (b # pcBlock) = crc8_while (crc8_for 0 (crc XOR b)) pcBlock"

text \<open>
  \<open>crc8block pcBlock len\<close>: the memory block is the list of bytes from the pointer on, of
  which the first \<open>len\<close> are read.
\<close>

definition crc8block :: "byte list \<Rightarrow> nat \<Rightarrow> byte" where
  "crc8block pcBlock len = crc8_while 0xFF (take len pcBlock)"

subsection \<open>The checksum as the specification words it\<close>

text \<open>
  An 8-bit CRC, polynomial 0x31, initial value 0xFF, no final XOR, most significant bit
  first: each input byte is XORed into the running CRC, which is then shifted left eight
  times, with the polynomial XORed in whenever the top bit was set before the shift.
\<close>

definition crc8_spec_shift :: "byte \<Rightarrow> byte" where
  "crc8_spec_shift c = (if bit c 7 then push_bit 1 c XOR 0x31 else push_bit 1 c)"

definition crc8_spec :: "byte list \<Rightarrow> byte" where
  "crc8_spec bytes = fold (\<lambda>b crc. (crc8_spec_shift ^^ 8) (crc XOR b)) bytes 0xFF"


section \<open>The current sketch: constants, enumerations and the settings record\<close>

definition maxFreq :: ulong where "maxFreq = 1000000"
definition maxFreqStep :: ulong where "maxFreqStep = 100000"
definition encFreqStep :: uint where "encFreqStep = 1000"
definition freqUpdateDelay :: ulong where "freqUpdateDelay = 400"
definition channelFreqs :: "ulong \<times> ulong" where "channelFreqs = (10000, 1000)"
definition EEPROM_ADDRESS_SHIFT :: nat where "EEPROM_ADDRESS_SHIFT = 0"

text \<open>
  \<open>enum Waveform : byte\<close> and \<open>enum MenuItem : byte\<close> are bytes with named values: the
  code does arithmetic on them and casts the result back, so a value outside the named
  ones can be stored. They are modelled as bytes.
\<close>

type_synonym Waveform = byte
definition SIN :: Waveform where "SIN = 0"
definition CLK :: Waveform where "CLK = 1"
definition TRI :: Waveform where "TRI = 2"

type_synonym MenuItem = byte
definition Function :: MenuItem where "Function = 0"
definition Frequency :: MenuItem where "Frequency = 1"
definition Phase :: MenuItem where "Phase = 2"
definition Version :: MenuItem where "Version = 3"

text \<open>\<open>sizeof(menuItmStr) / sizeof(char *)\<close> and \<open>sizeof(waveformStr) / sizeof(char *)\<close>.\<close>

definition menuItmStr_len :: uint where "menuItmStr_len = 4"
definition waveformStr_len :: uint where "waveformStr_len = 3"

datatype OutputStatus = OFF | ON

datatype DisplayFrame = HOME_PAGE | MENU | SETTING

text \<open>\<open>RotaryEncoder::Direction\<close>, the value of \<open>enc.getDirection()\<close>.\<close>

datatype Direction = NOROTATION | CLOCKWISE | COUNTERCLOCKWISE

text \<open>The calls that reach the AD9833 driver \<open>sigGen\<close>, kept in the order they are made.\<close>

datatype channel_t = CHAN_0 | CHAN_1

datatype mode_t = MODE_OFF | MODE_SINE | MODE_SQUARE1 | MODE_SQUARE2 | MODE_TRIANGLE

datatype sigGen_call =
    setMode mode_t
  | setFrequency channel_t ulong
  | setActiveFrequency channel_t

record Settings =
  frequency :: "ulong \<times> ulong"
  freqStep :: ulong
  waveform :: Waveform
  channel :: bool
  checksum :: byte

text \<open>\<open>frequency[i]\<close> read and written with a \<open>bool\<close> index.\<close>

definition frequency_at :: "ulong \<times> ulong \<Rightarrow> bool \<Rightarrow> ulong" where
  "frequency_at a i = (if i then snd a else fst a)"

definition frequency_set :: "ulong \<times> ulong \<Rightarrow> bool \<Rightarrow> ulong \<Rightarrow> ulong \<times> ulong" where
  "frequency_set a i v = (if i then (fst a, v) else (v, snd a))"

text \<open>
  With \<open>ENABLE_EEPROM\<close> the global \<open>settings\<close> has no initialiser and starts zeroed;
  without it the initialiser is
  \<open>{channelFreqs[0], channelFreqs[1], encFreqStep, SIN, 0, 0}\<close>.
\<close>

definition initial_settings :: "bool \<Rightarrow> Settings" where
  "initial_settings ENABLE_EEPROM =
     (if ENABLE_EEPROM
      then \<lparr>frequency = (0, 0), freqStep = 0, waveform = 0, channel = False, checksum = 0\<rparr>
      else \<lparr>frequency = (fst channelFreqs, snd channelFreqs), freqStep = ucast encFreqStep,
             waveform = SIN, channel = False, checksum = 0\<rparr>)"

text \<open>
  The program state: the global variables, and the calls received so far by the signal
  generator. The display is a collaborator whose calls are left out; only the flag
  \<open>isDispDirty\<close> is kept.

  The last field is no variable of the sketch. \<open>settings.channel\<close> is a \<open>bool\<close>, and
  \<open>channel\<close> holds its value; a block copied from the storage can leave in it a byte that
  is neither 0 nor 1, and what the program does once it reads such a \<open>bool\<close> is not
  defined by the language. \<open>invalid_bool_read\<close> is set when that happens: from there on
  the state no longer stands for what the program does.
\<close>

record State =
  settings :: Settings
  isDispDirty :: bool
  isFrequencyDirty :: bool
  outputStat :: OutputStatus
  curMenuSel :: MenuItem
  lastFreqUpdate :: ulong
  curDispFrame :: DisplayFrame
  curRow :: byte
  sigGen :: "sigGen_call list"
  invalid_bool_read :: bool

definition initial_state :: "bool \<Rightarrow> State" where
  "initial_state ENABLE_EEPROM =
     \<lparr>settings = initial_settings ENABLE_EEPROM,
      isDispDirty = True,
      isFrequencyDirty = True,
      outputStat = ON,
      curMenuSel = Function,
      lastFreqUpdate = 0,
      curDispFrame = HOME_PAGE,
      curRow = 0,
      sigGen = [],
      invalid_bool_read = False\<rparr>"

section \<open>The settings record in persistent storage\<close>

text \<open>
  The record is stored as its memory image: on the AVR the fields follow each other
  without padding, least significant byte first, so \<open>sizeof(Settings)\<close> is 15 and the
  checksum is the last byte.
\<close>

definition sizeof_Settings :: nat where "sizeof_Settings = 15"

definition ulong_bytes :: "ulong \<Rightarrow> byte list" where
  "ulong_bytes w = [ucast w, ucast (drop_bit 8 w), ucast (drop_bit 16 w), ucast (drop_bit 24 w)]"

definition bytes_ulong :: "byte list \<Rightarrow> ulong" where
  "bytes_ulong bs =
     ucast (bs ! 0) OR push_bit 8 (ucast (bs ! 1)) OR push_bit 16 (ucast (bs ! 2))
       OR push_bit 24 (ucast (bs ! 3))"

definition Settings_image :: "Settings \<Rightarrow> byte list" where
  "Settings_image st =
     ulong_bytes (fst (frequency st)) @ ulong_bytes (snd (frequency st))
       @ ulong_bytes (freqStep st)
       @ [waveform st, (if channel st then 1 else 0), checksum st]"

text \<open>
  The value of a \<open>bool\<close> whose byte is given: 0 is false, 1 is true, and any other byte is
  no value of the type.
\<close>

definition bool_of_byte :: "byte \<Rightarrow> bool option" where
  "bool_of_byte b = (if b = 0 then Some False else if b = 1 then Some True else None)"

text \<open>
  Reading an image back. Where the byte of \<open>channel\<close> is no \<open>bool\<close>, the field has no
  value: the program keeps the byte as it is, and once it reads the field, in
  \<open>settings.frequency[settings.channel]\<close> for one, it indexes with that byte (2 is the
  place of \<open>freqStep\<close>, a larger one lies beyond the record). The record built here holds
  \<open>True\<close> in its place, which stands for nothing, and a program that reads the field in
  that case is marked by \<open>invalid_bool_read\<close> (see \<open>setup_sketch\<close>): the model does not
  follow it there. The other fields take every byte.
\<close>

definition Settings_of_image :: "byte list \<Rightarrow> Settings" where
  "Settings_of_image bs =
     \<lparr>frequency = (bytes_ulong (take 4 bs), bytes_ulong (take 4 (drop 4 bs))),
      freqStep = bytes_ulong (take 4 (drop 8 bs)),
      waveform = bs ! 12,
      channel = (case bool_of_byte (bs ! 13) of Some c \<Rightarrow> c | None \<Rightarrow> True),
      checksum = bs ! 14\<rparr>"

text \<open>The storage is a byte at every address; a block is read and written bytewise.\<close>

type_synonym EEPROM = "nat \<Rightarrow> byte"

definition eeprom_read_block :: "EEPROM \<Rightarrow> nat \<Rightarrow> nat \<Rightarrow> byte list" where
  "eeprom_read_block e addr n = map e [addr ..< addr + n]"

definition eeprom_update_block :: "byte list \<Rightarrow> nat \<Rightarrow> EEPROM \<Rightarrow> EEPROM" where
  "eeprom_update_block bytes addr e =
     (\<lambda>a. if addr \<le> a \<and> a < addr + length bytes then bytes ! (a - addr) else e a)"

text \<open>
  \<open>readFromEEPROM\<close> copies the stored block over \<open>settings\<close>, whatever it holds, and
  returns whether the checksum of all bytes but the last equals the last one. The
  checksum is taken over the bytes as they were copied.
\<close>

definition readFromEEPROM :: "EEPROM \<Rightarrow> bool \<times> Settings" where
  "readFromEEPROM e =
     (let image = eeprom_read_block e EEPROM_ADDRESS_SHIFT sizeof_Settings;
          st = Settings_of_image image;
          checksum = crc8block image (sizeof_Settings - 1)
      in (checksum = image ! (sizeof_Settings - 1), st))"

text \<open>
  Whether the block that \<open>readFromEEPROM\<close> copies leaves a \<open>bool\<close> in \<open>settings.channel\<close>.
\<close>

definition stored_channel_is_bool :: "EEPROM \<Rightarrow> bool" where
  "stored_channel_is_bool e =
     (bool_of_byte (eeprom_read_block e EEPROM_ADDRESS_SHIFT sizeof_Settings ! 13) \<noteq> None)"

definition writeToEEPROM :: "Settings \<Rightarrow> EEPROM \<Rightarrow> Settings \<times> EEPROM" where
  "writeToEEPROM st e =
     (let checksum = crc8block (Settings_image st) (sizeof_Settings - 1);
          st' = st\<lparr>checksum := checksum\<rparr>
      in (st', eeprom_update_block (Settings_image st') EEPROM_ADDRESS_SHIFT e))"

text \<open>
  \<open>resetSettings\<close>, as written: both frequency assignments go to index 0, and the
  waveform is set to \<open>CLK\<close>.
\<close>

definition resetSettings :: "Settings \<Rightarrow> Settings" where
  "resetSettings st =
     (let st1 = st\<lparr>frequency := frequency_set (frequency st) False (fst channelFreqs)\<rparr>;
          st2 = st1\<lparr>frequency := frequency_set (frequency st1) False (snd channelFreqs)\<rparr>;
          st3 = st2\<lparr>freqStep := ucast encFreqStep\<rparr>;
          st4 = st3\<lparr>waveform := CLK\<rparr>
      in st4\<lparr>channel := False\<rparr>)"


section \<open>The signal generator and the output\<close>

definition sigGen_send :: "sigGen_call \<Rightarrow> State \<Rightarrow> State" where
  "sigGen_send c s = s\<lparr>sigGen := sigGen s @ [c]\<rparr>"

text \<open>\<open>setADSigMode\<close>: a \<open>switch\<close> with no \<open>default\<close>, so any other value sends nothing.\<close>

definition setADSigMode :: "Waveform \<Rightarrow> State \<Rightarrow> State" where
  "setADSigMode curMode s =
     (if curMode = SIN then sigGen_send (setMode MODE_SINE) s
      else if curMode = CLK then sigGen_send (setMode MODE_SQUARE1) s
      else if curMode = TRI then sigGen_send (setMode MODE_TRIANGLE) s
      else s)"

definition setADFreq :: "bool \<Rightarrow> ulong \<Rightarrow> State \<Rightarrow> State" where
  "setADFreq chan freq s =
     sigGen_send (setFrequency (if chan then CHAN_1 else CHAN_0) freq) s"

definition setADChannel :: "bool \<Rightarrow> State \<Rightarrow> State" where
  "setADChannel chan s =
     (if chan then sigGen_send (setActiveFrequency CHAN_1) s
      else sigGen_send (setActiveFrequency CHAN_0) s)"

text \<open>\<^verbatim>\<open>outputStat = (OutputStatus) !(bool)outputStat;\<close> and the mode that follows.\<close>

definition toggleOutput :: "State \<Rightarrow> State" where
  "toggleOutput s =
     (let s1 = s\<lparr>outputStat := (if outputStat s = OFF then ON else OFF)\<rparr>
      in if outputStat s1 = OFF then sigGen_send (setMode MODE_OFF) s1
         else setADSigMode (waveform (settings s1)) s1)"

section \<open>Rotation handlers\<close>

text \<open>
  \<open>changeFreq\<close>. The sum and the difference are computed on \<open>unsigned long\<close> and stored
  in a \<open>long\<close>: the same 32 bits. \<open>newFreq < maxFreq\<close> compares a \<open>long\<close> with an
  \<open>unsigned long\<close>, hence unsigned; \<open>newFreq > 0\<close> compares with an \<open>int\<close>, hence
  signed. The argument \<open>now\<close> is the value of \<open>millis()\<close> at the call.
\<close>

definition changeFreq :: "Direction \<Rightarrow> ulong \<Rightarrow> State \<Rightarrow> State" where
  "changeFreq rotDir now s =
     (let st = settings s;
          curFreq = frequency_at (frequency st) (channel st);
          st' =
            (if rotDir = CLOCKWISE then
               (let newFreq = curFreq + freqStep st
                in st\<lparr>frequency := frequency_set (frequency st) (channel st)
                          (if newFreq < maxFreq then newFreq else maxFreq)\<rparr>)
             else if rotDir = COUNTERCLOCKWISE then
               (let newFreq = curFreq - freqStep st
                in st\<lparr>frequency := frequency_set (frequency st) (channel st)
                          (if 0 <s newFreq then newFreq else freqStep st)\<rparr>)
             else st)
      in s\<lparr>settings := st', lastFreqUpdate := now, isFrequencyDirty := True\<rparr>)"

text \<open>
  \<open>changeStep\<close> computes in floating point with \<open>log10\<close> and \<open>pow\<close> of the C library,
  which is not part of the sketch: the two functions are parameters here, and the floats
  are read as real numbers. A conversion to an integer type cuts the fraction off;
  \<open>round\<close> is the macro of the Arduino core,
  \<^verbatim>\<open>((x)>=0?(long)((x)+0.5):(long)((x)-0.5))\<close>.
\<close>

record libm =
  log10 :: "real \<Rightarrow> real"
  pow :: "real \<Rightarrow> real \<Rightarrow> real"

definition trunc :: "real \<Rightarrow> int" where
  "trunc x = (if 0 \<le> x then \<lfloor>x\<rfloor> else \<lceil>x\<rceil>)"

definition arduino_round :: "real \<Rightarrow> int" where
  "arduino_round x = (if 0 \<le> x then trunc (x + 1 / 2) else trunc (x - 1 / 2))"

definition changeStep :: "libm \<Rightarrow> Direction \<Rightarrow> State \<Rightarrow> State" where
  "changeStep m rotDir s =
     (let st = settings s;
          idc = (word_of_int (trunc (log10 m (real (unat (freqStep st))))) :: uint);
          idc' =
            (if rotDir = CLOCKWISE then
               (word_of_int (trunc
                  (if real (unat idc) < log10 m (real (unat maxFreqStep))
                   then real (unat (idc + 1))
                   else log10 m (real (unat maxFreqStep)))) :: uint)
             else (if 1 < idc then idc - 1 else 0))
      in s\<lparr>settings := st\<lparr>freqStep := word_of_int (arduino_round (pow m 10 (real (unat idc'))))\<rparr>\<rparr>)"

definition changeMenu :: "Direction \<Rightarrow> State \<Rightarrow> State" where
  "changeMenu rotDir s =
     (let arrLen = menuItmStr_len;
          s' =
            (if rotDir = CLOCKWISE then
               (if (ucast (curMenuSel s) :: uint) < arrLen - 1
                then s\<lparr>curMenuSel := curMenuSel s + 1\<rparr>
                else s\<lparr>curMenuSel := Version\<rparr>)
             else if rotDir = COUNTERCLOCKWISE then
               (if 0 < curMenuSel s
                then s\<lparr>curMenuSel := curMenuSel s - 1\<rparr>
                else s\<lparr>curMenuSel := Function\<rparr>)
             else s)
      in s'\<lparr>isDispDirty := True\<rparr>)"

text \<open>
  \<open>handleSettingChange\<close>. In the \<open>Function\<close> case the new waveform is computed on
  \<open>int\<close> and stored as a byte; then \<open>toggleOutput()\<close> is called, and \<open>setWaveform\<close>,
  which only moves the cursor of the display.
\<close>

definition handleSettingChange :: "libm \<Rightarrow> Direction \<Rightarrow> ulong \<Rightarrow> State \<Rightarrow> State" where
  "handleSettingChange m rotDir now s =
     (let st = settings s;
          curWaveform = waveform st;
          len = waveformStr_len
      in if curMenuSel s = Function then
           (let w =
                 (if rotDir = CLOCKWISE then
                    (if (ucast curWaveform :: uint) + 1 < len then curWaveform + 1 else 0)
                  else if rotDir = COUNTERCLOCKWISE then
                    (if 0 < curWaveform then curWaveform - 1 else ucast (len - 1))
                  else curWaveform)
            in toggleOutput (s\<lparr>settings := st\<lparr>waveform := w\<rparr>\<rparr>))
         else if curMenuSel s = Frequency then
           (if curRow s = 0 then changeFreq rotDir now s else changeStep m rotDir s)
         else s)"

definition encRotate :: "libm \<Rightarrow> Direction \<Rightarrow> ulong \<Rightarrow> State \<Rightarrow> State" where
  "encRotate m rotDir now s =
     (case curDispFrame s of
        HOME_PAGE \<Rightarrow> changeFreq rotDir now s
      | MENU \<Rightarrow> changeMenu rotDir s
      | SETTING \<Rightarrow> handleSettingChange m rotDir now s)"

section \<open>Button handlers\<close>

definition encPress :: "State \<Rightarrow> State" where
  "encPress s =
     (case curDispFrame s of
        HOME_PAGE \<Rightarrow> toggleOutput s
      | MENU \<Rightarrow> s\<lparr>curDispFrame := SETTING, isDispDirty := True\<rparr>
      | SETTING \<Rightarrow>
          (if curMenuSel s = Frequency
           then s\<lparr>curRow := (if curRow s = 0 then 1 else 0)\<rparr>
           else s\<lparr>curDispFrame := MENU, isDispDirty := True\<rparr>))"

definition encDoublePress :: "State \<Rightarrow> State" where
  "encDoublePress s =
     (case curDispFrame s of
        HOME_PAGE \<Rightarrow>
          (let s1 = s\<lparr>settings := (settings s)\<lparr>channel := \<not> channel (settings s)\<rparr>\<rparr>
           in setADChannel (channel (settings s1)) s1)
      | _ \<Rightarrow> s)"

definition encLongPress :: "State \<Rightarrow> State" where
  "encLongPress s =
     (let s' =
        (case curDispFrame s of
           HOME_PAGE \<Rightarrow> s\<lparr>curDispFrame := MENU\<rparr>
         | MENU \<Rightarrow> s\<lparr>curMenuSel := 0, curDispFrame := HOME_PAGE\<rparr>
         | SETTING \<Rightarrow>
             (if curMenuSel s = Frequency then s\<lparr>curDispFrame := MENU, curRow := 0\<rparr> else s))
      in s'\<lparr>isDispDirty := True\<rparr>)"

section \<open>\<open>setup\<close> and \<open>loop\<close>\<close>

text \<open>
  The function \<open>setup\<close> of the sketch (the name is taken in Isabelle). With
  \<open>ENABLE_EEPROM\<close> the stored record is read; when its checksum fails,
  \<open>resetSettings()\<close> and \<open>writeToEEPROM()\<close> follow. (The local flag that guards the two
  calls bears the name of the function \<open>resetSettings\<close>; the call is read as the call of
  the function.) Then both frequencies and the channel are sent to the generator and the
  output is toggled. The display, the start screen with its delay, the interrupts, the
  watchdog and \<open>sigGen.begin()\<close> leave the state modelled here as it is.

  After a failed load \<open>resetSettings\<close> overwrites \<open>settings.channel\<close> before anything
  reads it. After a load that passes the checksum the record stays as it was copied, and
  \<open>setADChannel(settings.channel)\<close> below reads the field: when the stored byte is no
  \<open>bool\<close>, the state is marked.
\<close>

definition setup_sketch :: "bool \<Rightarrow> EEPROM \<Rightarrow> State \<Rightarrow> State \<times> EEPROM" where
  "setup_sketch ENABLE_EEPROM e s =
     (let (s1, e1) =
            (if ENABLE_EEPROM then
               (let (ok, st) = readFromEEPROM e;
                    s0 = s\<lparr>settings := st\<rparr>
                in if \<not> ok then
                     (let (st', e') = writeToEEPROM (resetSettings (settings s0)) e
                      in (s0\<lparr>settings := st'\<rparr>, e'))
                   else (s0\<lparr>invalid_bool_read := \<not> stored_channel_is_bool e\<rparr>, e))
             else (s, e));
          s2 = setADFreq False (fst (frequency (settings s1))) s1;
          s3 = setADFreq True (snd (frequency (settings s2))) s2;
          s4 = setADChannel (channel (settings s3)) s3
      in (toggleOutput s4, e1))"

text \<open>
  The block of \<open>loop\<close> under \<open>RUNNING_FREQUENCY\<close>, with \<open>now\<close> the value of \<open>millis()\<close>:
  \<^verbatim>\<open>if (isFrequencyDirty) { if (millis() - lastFreqUpdate > freqUpdateDelay) { ... } }\<close>
\<close>

definition loop_RUNNING_FREQUENCY :: "ulong \<Rightarrow> State \<Rightarrow> State" where
  "loop_RUNNING_FREQUENCY now s =
     (if isFrequencyDirty s then
        (if freqUpdateDelay < now - lastFreqUpdate s
         then (setADFreq (channel (settings s))
                 (frequency_at (frequency (settings s)) (channel (settings s))) s)
                \<lparr>isFrequencyDirty := False\<rparr>
         else s)
      else s)"

definition updateDisplay :: "State \<Rightarrow> State" where
  "updateDisplay s = s\<lparr>isDispDirty := False\<rparr>"

text \<open>
  One iteration of \<open>loop\<close>. Its inputs: the gesture that \<open>encBtn.tick()\<close> reports, if any;
  the time; and, when the encoder position has changed, the direction and the time at
  which \<open>encRotate\<close> runs.
\<close>

datatype ButtonEvent = NoEvent | Click | DoubleClick | LongPress

definition encBtn_tick :: "ButtonEvent \<Rightarrow> State \<Rightarrow> State" where
  "encBtn_tick ev s =
     (case ev of
        NoEvent \<Rightarrow> s
      | Click \<Rightarrow> encPress s
      | DoubleClick \<Rightarrow> encDoublePress s
      | LongPress \<Rightarrow> encLongPress s)"

definition loop :: "libm \<Rightarrow> ButtonEvent \<Rightarrow> ulong \<Rightarrow> (Direction \<times> ulong) option \<Rightarrow> State \<Rightarrow> State" where
  "loop m ev now rot s =
     (let s1 = encBtn_tick ev s;
          s2 = loop_RUNNING_FREQUENCY now s1;
          s3 = (case rot of None \<Rightarrow> s2 | Some (rotDir, t) \<Rightarrow> encRotate m rotDir t s2)
      in if isDispDirty s3 then updateDisplay s3 else s3)"

text \<open>A sequence of rotate events, each with its direction and time, handled in order.\<close>

fun encRotate_seq :: "libm \<Rightarrow> (Direction \<times> ulong) list \<Rightarrow> State \<Rightarrow> State" where
  "encRotate_seq m [] s = s"
| "encRotate_seq m ((rotDir, now) # evs) s = encRotate_seq m evs (encRotate m rotDir now s)"


section \<open>The previous sketch\<close>

text \<open>
  The repository keeps earlier versions of the sketch beside the current one. In the
  previous one the rotation handler \<open>encRotate\<close> does everything inline, with the fixed
  step \<open>encFreqStep\<close>; its settings hold one waveform per channel and no step. Of this
  version the state that \<open>encRotate\<close> touches and the handler itself are modelled. The
  oldest version, with its memory banks, is left out: its handler takes the length of an
  array \<open>menuItems\<close> that is declared nowhere.
\<close>

definition channelFreqs_prev :: "ulong \<times> ulong" where "channelFreqs_prev = (10000, 500000)"

record Settings_prev =
  frequency_prev :: "ulong \<times> ulong"
  waveform_prev :: "Waveform \<times> Waveform"
  channel_prev :: bool
  checksum_prev :: byte

record State_prev =
  settings_prev :: Settings_prev
  isDispDirty_prev :: byte
  outputStat_prev :: OutputStatus
  curMenuSel_prev :: MenuItem
  curDispFrame_prev :: DisplayFrame

definition initial_state_prev :: State_prev where
  "initial_state_prev =
     \<lparr>settings_prev =
        \<lparr>frequency_prev = (fst channelFreqs_prev, snd channelFreqs_prev),
         waveform_prev = (SIN, SIN), channel_prev = False, checksum_prev = 0\<rparr>,
      isDispDirty_prev = 1,
      outputStat_prev = OFF,
      curMenuSel_prev = Function,
      curDispFrame_prev = HOME_PAGE\<rparr>"

text \<open>
  \<open>encRotate\<close> of the previous sketch. On the home page the new frequency is a \<open>long\<close>;
  \<open>newFreq < maxFreq\<close> is an unsigned comparison, \<open>newFreq > 0\<close> a signed one. In a
  setting the handler changes a local copy of the waveform and the cursor of the display
  only, so the state stays as it is.
\<close>

definition encRotate_prev :: "Direction \<Rightarrow> State_prev \<Rightarrow> State_prev" where
  "encRotate_prev rotDir s =
     (let st = settings_prev s;
          curFreq = frequency_at (frequency_prev st) (channel_prev st)
      in if curDispFrame_prev s = HOME_PAGE then
           (if rotDir = COUNTERCLOCKWISE then
              (let newFreq = curFreq + ucast encFreqStep
               in s\<lparr>settings_prev := st\<lparr>frequency_prev :=
                      frequency_set (frequency_prev st) (channel_prev st)
                        (if newFreq < maxFreq then newFreq else maxFreq)\<rparr>\<rparr>)
            else if rotDir = CLOCKWISE then
              (let newFreq = curFreq - ucast encFreqStep
               in s\<lparr>settings_prev := st\<lparr>frequency_prev :=
                      frequency_set (frequency_prev st) (channel_prev st)
                        (if 0 <s newFreq then newFreq else 0)\<rparr>\<rparr>)
            else s)
         else if curDispFrame_prev s = MENU then
           (let arrLen = menuItmStr_len;
                s' =
                  (if rotDir = COUNTERCLOCKWISE then
                     (if (ucast (curMenuSel_prev s) :: uint) < arrLen - 1
                      then s\<lparr>curMenuSel_prev := curMenuSel_prev s + 1\<rparr>
                      else s\<lparr>curMenuSel_prev := ucast (arrLen - 1)\<rparr>)
                   else if rotDir = CLOCKWISE then
                     (if 0 < curMenuSel_prev s
                      then s\<lparr>curMenuSel_prev := curMenuSel_prev s + 1\<rparr>
                      else s\<lparr>curMenuSel_prev := Function\<rparr>)
                   else s)
            in s'\<lparr>isDispDirty_prev := 1\<rparr>)
         else s)"

fun encRotate_prev_seq :: "Direction list \<Rightarrow> State_prev \<Rightarrow> State_prev" where
  "encRotate_prev_seq [] s = s"
| "encRotate_prev_seq (rotDir # evs) s = encRotate_prev_seq evs (encRotate_prev rotDir s)"

section \<open>Notions used to state the properties\<close>

text \<open>\<open>settings.frequency[settings.channel]\<close>: the frequency of the active channel.\<close>

definition active_frequency :: "State \<Rightarrow> ulong" where
  "active_frequency s = frequency_at (frequency (settings s)) (channel (settings s))"

definition active_frequency_prev :: "State_prev \<Rightarrow> ulong" where
  "active_frequency_prev s =
     frequency_at (frequency_prev (settings_prev s)) (channel_prev (settings_prev s))"

text \<open>
  A library whose \<open>log10\<close> and \<open>pow\<close> are the mathematical functions, to have a concrete
  one where a statement needs it.
\<close>

definition exact_libm :: libm where
  "exact_libm = \<lparr>log10 = log 10, pow = (\<lambda>x y. x powr y)\<rparr>"

text \<open>Stagings one after the other: calls of \<open>changeFreq\<close>, each with its direction and time.\<close>

fun changeFreq_seq :: "(Direction \<times> ulong) list \<Rightarrow> State \<Rightarrow> State" where
  "changeFreq_seq [] s = s"
| "changeFreq_seq ((rotDir, now) # evs) s = changeFreq_seq evs (changeFreq rotDir now s)"

text \<open>The debounce block run at the given times, one after the other.\<close>

fun ticks :: "ulong list \<Rightarrow> State \<Rightarrow> State" where
  "ticks [] s = s"
| "ticks (now # nows) s = ticks nows (loop_RUNNING_FREQUENCY now s)"

text \<open>Iterations of \<open>loop\<close> in which the encoder has not moved, each with its gesture and time.\<close>

fun loop_idle_seq :: "libm \<Rightarrow> (ButtonEvent \<times> ulong) list \<Rightarrow> State \<Rightarrow> State" where
  "loop_idle_seq m [] s = s"
| "loop_idle_seq m ((ev, now) # its) s = loop_idle_seq m its (loop m ev now None s)"

text \<open>The \<open>setFrequency\<close> calls among the calls received by the generator, in order.\<close>

fun setFrequency_calls :: "sigGen_call list \<Rightarrow> (channel_t \<times> ulong) list" where
  "setFrequency_calls [] = []"
| "setFrequency_calls (setFrequency c f # cs) = (c, f) # setFrequency_calls cs"
| "setFrequency_calls (_ # cs) = setFrequency_calls cs"

definition active_channel :: "State \<Rightarrow> channel_t" where
  "active_channel s = (if channel (settings s) then CHAN_1 else CHAN_0)"

text \<open>
  Before the first commit: the flag \<open>isFrequencyDirty\<close> is set and \<open>lastFreqUpdate\<close> still
  has its initial value 0.
\<close>

definition fresh :: "State \<Rightarrow> bool" where
  "fresh s = (isFrequencyDirty s \<and> lastFreqUpdate s = 0)"

text \<open>
  What \<open>changeStep\<close> needs of the library at the powers of ten up to \<open>maxFreqStep\<close>, since
  it cuts the logarithm off and rounds the power: \<open>log10\<close> of \<open>10 ^ k\<close> is not below \<open>k\<close>
  and below \<open>k + 1\<close>, it is not above 5 at \<open>maxFreqStep\<close>, and \<open>pow\<close> misses \<open>10 ^ k\<close> by
  less than one half.
\<close>

definition libm_accurate :: "libm \<Rightarrow> bool" where
  "libm_accurate m =
     ((\<forall>k \<le> 5. real k \<le> log10 m (10 ^ k) \<and> log10 m (10 ^ k) < real k + 1)
      \<and> log10 m (10 ^ 5) \<le> 5
      \<and> (\<forall>k \<le> 5. \<bar>pow m 10 (real k) - 10 ^ k\<bar> < 1 / 2))"

text \<open>
  A library that differs from the exact one at a single argument, where its \<open>log10\<close> is
  short of the integer by a rounding error.
\<close>

definition inexact_libm :: libm where
  "inexact_libm =
     \<lparr>log10 = (\<lambda>x. if x = 1000 then 2.9999998 else log 10 x), pow = (\<lambda>x y. x powr y)\<rparr>"

section \<open>The checksum is the CRC of the specification\<close>

lemma top_bit: "(crc AND 0x80 \<noteq> 0) = bit (crc::byte) 7"
proof -
  have "(crc AND 2 ^ 7 = 0) = (\<not> bit crc 7)"
    by (rule and_exp_eq_0_iff_not_bit)
  then show ?thesis by simp
qed

lemma promote_shift: "(ucast (push_bit n (ucast (c::byte) :: uint)) :: byte) = push_bit n c"
  by (rule bit_word_eqI) (auto simp add: bit_simps)

lemma promote_xor: "(ucast ((x::uint) XOR y) :: byte) = ucast x XOR ucast y"
  by (rule bit_word_eqI) (auto simp add: bit_simps)

lemma crc8_shift_spec: "crc8_shift c = crc8_spec_shift c"
  unfolding crc8_shift_def crc8_spec_shift_def top_bit promote_xor promote_shift
  by simp

lemma crc8_for_unfold: "crc8_for 0 c = (crc8_shift ^^ 8) c"
  by (simp add: numeral_eq_Suc funpow_swap1)

lemma crc8_while_fold:
  "crc8_while crc bs = fold (\<lambda>b crc. (crc8_spec_shift ^^ 8) (crc XOR b)) bs crc"
proof (induction bs arbitrary: crc)
  case Nil
  show ?case by simp
next
  case (Cons b bs)
  have "crc8_shift = crc8_spec_shift" by (rule ext) (rule crc8_shift_spec)
  then show ?case using Cons.IH by (simp add: crc8_for_unfold del: crc8_for.simps)
qed

text \<open>
  Claim C5. For every byte span, \<open>crc8block\<close> computes the 8-bit CRC with polynomial
  0x31, initial value 0xFF and no final XOR, most significant bit first, as the
  specification words it: the function of the source and the reference definition agree
  on every list of bytes.
\<close>

theorem crc8block_is_crc8_spec: "crc8block bytes (length bytes) = crc8_spec bytes"
  by (simp add: crc8block_def crc8_spec_def crc8_while_fold)

text \<open>The two agree on the bytes of "123456789", whose CRC is 0xF7.\<close>

theorem crc8block_is_crc8_spec_witness:
  "crc8block [0x31, 0x32, 0x33, 0x34, 0x35, 0x36, 0x37, 0x38, 0x39] 9 = 0xF7
   \<and> crc8_spec [0x31, 0x32, 0x33, 0x34, 0x35, 0x36, 0x37, 0x38, 0x39] = 0xF7"
proof -
  let ?bytes = "[0x31, 0x32, 0x33, 0x34, 0x35, 0x36, 0x37, 0x38, 0x39] :: byte list"
  have v: "crc8block ?bytes 9 = 0xF7"
    by (simp add: crc8block_def crc8_shift_def)
  have l: "length ?bytes = 9" by simp
  have "crc8block ?bytes (length ?bytes) = crc8_spec ?bytes"
    by (rule crc8block_is_crc8_spec)
  then have "crc8block ?bytes 9 = crc8_spec ?bytes" by (simp only: l)
  with v show ?thesis by simp
qed

section \<open>Saving and loading the settings\<close>

lemma bytes_ulong_bytes:
  "bytes_ulong [ucast w, ucast (drop_bit 8 w), ucast (drop_bit 16 w), ucast (drop_bit 24 w)] = w"
proof (rule bit_word_eqI)
  fix n :: nat
  assume "n < LENGTH(32)"
  then consider "n < 8" | "8 \<le> n" "n < 16" | "16 \<le> n" "n < 24" | "24 \<le> n" "n < 32"
    by fastforce
  then show "bit (bytes_ulong
      [ucast w, ucast (drop_bit 8 w), ucast (drop_bit 16 w), ucast (drop_bit 24 w)]) n = bit w n"
    by cases (auto simp add: bytes_ulong_def bit_simps)
qed

lemma length_Settings_image: "length (Settings_image st) = 15"
  by (simp add: Settings_image_def ulong_bytes_def)

lemma Settings_of_image_image: "Settings_of_image (Settings_image st) = st"
  by (cases st)
    (simp add: Settings_of_image_def Settings_image_def ulong_bytes_def bytes_ulong_bytes
      bool_of_byte_def)

lemma take_Settings_image:
  "take 14 (Settings_image (st\<lparr>checksum := c\<rparr>)) = take 14 (Settings_image st)"
  by (simp add: Settings_image_def ulong_bytes_def)

lemma last_Settings_image: "Settings_image st ! 14 = checksum st"
  by (simp add: Settings_image_def ulong_bytes_def)

lemma read_update_block:
  "eeprom_read_block (eeprom_update_block bytes addr e) addr (length bytes) = bytes"
  by (rule nth_equalityI) (simp_all add: eeprom_read_block_def eeprom_update_block_def)

lemma crc8block_take: "crc8block bs n = crc8block (take n bs) n"
  by (simp add: crc8block_def)

lemma read_written:
  "readFromEEPROM (eeprom_update_block
       (Settings_image (st\<lparr>checksum := crc8block (Settings_image st) 14\<rparr>)) 0 e)
     = (True, st\<lparr>checksum := crc8block (Settings_image st) 14\<rparr>)"
proof -
  let ?c = "crc8block (Settings_image st) 14"
  let ?st = "st\<lparr>checksum := ?c\<rparr>"
  have "eeprom_read_block (eeprom_update_block (Settings_image ?st) 0 e) 0
          (length (Settings_image ?st)) = Settings_image ?st"
    by (rule read_update_block)
  then have r: "eeprom_read_block (eeprom_update_block (Settings_image ?st) 0 e) 0 15
      = Settings_image ?st"
    by (simp only: length_Settings_image)
  have "crc8block (Settings_image ?st) 14 = crc8block (take 14 (Settings_image ?st)) 14"
    by (rule crc8block_take)
  also have "\<dots> = crc8block (take 14 (Settings_image st)) 14"
    by (simp only: take_Settings_image)
  also have "\<dots> = ?c"
    by (rule crc8block_take [symmetric])
  finally have c: "crc8block (Settings_image ?st) 14 = Settings_image ?st ! 14"
    by (simp add: last_Settings_image)
  show ?thesis
    using c
    by (simp add: readFromEEPROM_def sizeof_Settings_def EEPROM_ADDRESS_SHIFT_def Let_def r
        Settings_of_image_image del: One_nat_def)
qed

lemma writeToEEPROM_eq:
  "writeToEEPROM st e =
     (st\<lparr>checksum := crc8block (Settings_image st) 14\<rparr>,
      eeprom_update_block (Settings_image (st\<lparr>checksum := crc8block (Settings_image st) 14\<rparr>)) 0 e)"
  by (simp add: writeToEEPROM_def sizeof_Settings_def EEPROM_ADDRESS_SHIFT_def Let_def)

text \<open>
  Claim C7. For every settings record and every storage, \<open>writeToEEPROM\<close> followed by
  \<open>readFromEEPROM\<close> on the storage it has written succeeds, and yields the record that
  was saved: the given record with its checksum recomputed over all bytes but the last.
\<close>

theorem write_then_read:
  "readFromEEPROM (snd (writeToEEPROM st e)) = (True, fst (writeToEEPROM st e))
   \<and> fst (writeToEEPROM st e)
       = st\<lparr>checksum := crc8block (Settings_image st) (sizeof_Settings - 1)\<rparr>"
  by (simp add: writeToEEPROM_eq read_written sizeof_Settings_def)

text \<open>The default settings saved to an erased storage and read back; their checksum is 0xA7.\<close>

theorem write_then_read_witness:
  "readFromEEPROM (snd (writeToEEPROM (initial_settings False) (\<lambda>a. 0xFF)))
     = (True, fst (writeToEEPROM (initial_settings False) (\<lambda>a. 0xFF)))
   \<and> fst (writeToEEPROM (initial_settings False) (\<lambda>a. 0xFF))
       = \<lparr>frequency = (10000, 1000), freqStep = 1000, waveform = SIN, channel = False,
          checksum = 0xA7\<rparr>"
proof -
  have c: "crc8block (Settings_image (initial_settings False)) (sizeof_Settings - 1) = 0xA7"
    by (simp add: initial_settings_def Settings_image_def ulong_bytes_def channelFreqs_def
        encFreqStep_def SIN_def sizeof_Settings_def crc8block_def crc8_shift_def)
  have "(initial_settings False)\<lparr>checksum := 0xA7\<rparr>
      = \<lparr>frequency = (10000, 1000), freqStep = 1000, waveform = SIN, channel = False,
          checksum = 0xA7\<rparr>"
    by (simp add: initial_settings_def channelFreqs_def encFreqStep_def)
  with c write_then_read [of "initial_settings False" "\<lambda>a. 0xFF"] show ?thesis
    by (simp only:)
qed

section \<open>The stored channel\<close>

text \<open>
  The start-up marks the state exactly when the storage is in use, the stored record
  passes its checksum, and its channel byte is neither 0 nor 1. A record that
  \<open>writeToEEPROM\<close> has stored holds 0 or 1 there.
\<close>

lemma initial_state_valid: "\<not> invalid_bool_read (initial_state E)"
  by (simp add: initial_state_def)

lemma setup_tail_keeps_mark:
  "invalid_bool_read (toggleOutput (setADChannel c (setADFreq b g (setADFreq a f s))))
     = invalid_bool_read s"
  by (simp add: toggleOutput_def setADSigMode_def setADChannel_def setADFreq_def
      sigGen_send_def Let_def)

lemma setup_sketch_invalid_bool_read:
  "invalid_bool_read (fst (setup_sketch E e (initial_state E)))
     = (E \<and> fst (readFromEEPROM e) \<and> \<not> stored_channel_is_bool e)"
  by (simp add: setup_sketch_def Let_def setup_tail_keeps_mark initial_state_valid
      split: prod.splits)

lemma written_channel_is_bool: "stored_channel_is_bool (snd (writeToEEPROM st e))"
proof -
  let ?st = "st\<lparr>checksum := crc8block (Settings_image st) 14\<rparr>"
  have "eeprom_read_block (eeprom_update_block (Settings_image ?st) 0 e) 0
          (length (Settings_image ?st)) = Settings_image ?st"
    by (rule read_update_block)
  then have r: "eeprom_read_block (eeprom_update_block (Settings_image ?st) 0 e) 0 15
      = Settings_image ?st"
    by (simp only: length_Settings_image)
  have "bool_of_byte (Settings_image ?st ! 13) \<noteq> None"
    by (auto simp add: Settings_image_def ulong_bytes_def bool_of_byte_def)
  then show ?thesis
    by (simp add: stored_channel_is_bool_def writeToEEPROM_eq EEPROM_ADDRESS_SHIFT_def
        sizeof_Settings_def r del: One_nat_def)
qed

section \<open>The start-up with a record that fails its checksum\<close>

lemma readFromEEPROM_erased:
  "readFromEEPROM (\<lambda>a. 0xFF) =
     (False, \<lparr>frequency = (0xFFFFFFFF, 0xFFFFFFFF), freqStep = 0xFFFFFFFF, waveform = 0xFF,
        channel = True, checksum = 0xFF\<rparr>)"
  by (simp add: readFromEEPROM_def eeprom_read_block_def EEPROM_ADDRESS_SHIFT_def
      sizeof_Settings_def Settings_of_image_def bool_of_byte_def bytes_ulong_def crc8block_def
      crc8_shift_def
      upt_rec Let_def)

lemma resetSettings_eq:
  "resetSettings st =
     st\<lparr>frequency := (1000, snd (frequency st)), freqStep := 1000, waveform := CLK,
        channel := False\<rparr>"
  by (simp add: resetSettings_def frequency_set_def channelFreqs_def encFreqStep_def Let_def)

lemma setup_sketch_failed_load:
  assumes "readFromEEPROM e = (False, st)"
  shows "setup_sketch True e s =
    (let (st', e') = writeToEEPROM (resetSettings st) e;
         s1 = s\<lparr>settings := st'\<rparr>;
         s2 = setADFreq False (fst (frequency (settings s1))) s1;
         s3 = setADFreq True (snd (frequency (settings s2))) s2;
         s4 = setADChannel (channel (settings s3)) s3
     in (toggleOutput s4, e'))"
  using assms by (simp add: setup_sketch_def Let_def split: prod.splits)

lemma setup_sketch_keeps_settings:
  "settings (toggleOutput (setADChannel c (setADFreq b g (setADFreq a f s)))) = settings s"
  by (simp add: toggleOutput_def setADSigMode_def setADChannel_def setADFreq_def
      sigGen_send_def Let_def)


text \<open>
  Claim C4 asks that after a failed load the settings be the factory defaults (channel 0
  at 10 kHz, channel 1 at its default, step 1 kHz, waveform sine, channel 0 active),
  saved once with a valid checksum. On an erased storage (every byte 0xFF) the load
  fails; \<open>resetSettings\<close> then writes both default frequencies to index 0 and sets the
  waveform to \<open>CLK\<close>, so channel 0 ends at 1000 Hz, channel 1 keeps the 0xFFFFFFFF read
  from the storage, and the waveform is the square wave. The record is saved, and what was
  saved loads with a valid checksum. The initialiser used without the storage has the
  values of the claim.
\<close>

theorem reset_after_failed_load:
  "fst (readFromEEPROM (\<lambda>a. 0xFF)) = False
   \<and> settings (fst (setup_sketch True (\<lambda>a. 0xFF) (initial_state True)))
       = \<lparr>frequency = (1000, 0xFFFFFFFF), freqStep = 1000, waveform = CLK, channel = False,
          checksum = 0xA7\<rparr>
   \<and> readFromEEPROM (snd (setup_sketch True (\<lambda>a. 0xFF) (initial_state True)))
       = (True, \<lparr>frequency = (1000, 0xFFFFFFFF), freqStep = 1000, waveform = CLK,
            channel = False, checksum = 0xA7\<rparr>)"
proof -
  let ?e = "(\<lambda>a. 0xFF) :: EEPROM"
  let ?garbage = "\<lparr>frequency = (0xFFFFFFFF, 0xFFFFFFFF), freqStep = 0xFFFFFFFF, waveform = 0xFF,
        channel = True, checksum = 0xFF\<rparr> :: Settings"
  let ?reset = "\<lparr>frequency = (1000, 0xFFFFFFFF), freqStep = 1000, waveform = CLK,
        channel = False, checksum = 0xFF\<rparr> :: Settings"
  let ?saved = "\<lparr>frequency = (1000, 0xFFFFFFFF), freqStep = 1000, waveform = CLK,
        channel = False, checksum = 0xA7\<rparr> :: Settings"
  have r: "resetSettings ?garbage = ?reset"
    by (simp add: resetSettings_eq)
  have c: "crc8block (Settings_image ?reset) 14 = 0xA7"
    by (simp add: Settings_image_def ulong_bytes_def CLK_def crc8block_def crc8_shift_def)
  have u: "?reset\<lparr>checksum := 0xA7\<rparr> = ?saved" by simp
  have w: "writeToEEPROM ?reset ?e = (?saved, eeprom_update_block (Settings_image ?saved) 0 ?e)"
    unfolding writeToEEPROM_eq c u by (rule refl)
  have "readFromEEPROM (eeprom_update_block
       (Settings_image (?reset\<lparr>checksum := crc8block (Settings_image ?reset) 14\<rparr>)) 0 ?e)
     = (True, ?reset\<lparr>checksum := crc8block (Settings_image ?reset) 14\<rparr>)"
    by (rule read_written)
  then have b: "readFromEEPROM (eeprom_update_block (Settings_image ?saved) 0 ?e) = (True, ?saved)"
    unfolding c u .
  have s: "setup_sketch True ?e (initial_state True) =
    (let (st', e') = writeToEEPROM (resetSettings ?garbage) ?e;
         s1 = (initial_state True)\<lparr>settings := st'\<rparr>;
         s2 = setADFreq False (fst (frequency (settings s1))) s1;
         s3 = setADFreq True (snd (frequency (settings s2))) s2;
         s4 = setADChannel (channel (settings s3)) s3
     in (toggleOutput s4, e'))"
    using readFromEEPROM_erased by (rule setup_sketch_failed_load)
  have s1: "settings (fst (setup_sketch True ?e (initial_state True))) = ?saved"
    unfolding s r w by (simp add: Let_def setup_sketch_keeps_settings)
  have s2: "snd (setup_sketch True ?e (initial_state True))
      = eeprom_update_block (Settings_image ?saved) 0 ?e"
    unfolding s r w by (simp add: Let_def)
  have f: "fst (readFromEEPROM ?e) = False"
    unfolding readFromEEPROM_erased by simp
  from f s1 b show ?thesis unfolding s2 by (intro conjI)
qed

section \<open>The frequency on the home page\<close>

lemma sint_ulong:
  "sint (w::ulong) = (if uint w < 2147483648 then uint w else uint w - 4294967296)"
proof -
  have b: "0 \<le> uint w" "uint w < 4294967296"
    using uint_lt2p [of w] by simp_all
  have s: "sint w = (uint w + 2147483648) mod 4294967296 - 2147483648"
    by (simp add: sint_uint signed_take_bit_eq_take_bit_shift take_bit_eq_mod)
  show ?thesis
  proof (cases "uint w < 2147483648")
    case True
    then have "(uint w + 2147483648) mod 4294967296 = uint w + 2147483648"
      using b by (simp add: mod_pos_pos_trivial)
    with True s show ?thesis by simp
  next
    case False
    have "(uint w + 2147483648) mod 4294967296 = (uint w + 2147483648 - 4294967296) mod 4294967296"
      by (simp only: minus_mod_self2)
    also have "\<dots> = uint w + 2147483648 - 4294967296"
      using b False by (simp add: mod_pos_pos_trivial)
    finally show ?thesis using False s by simp
  qed
qed

lemma uint_sub_ulong:
  "uint ((f::ulong) - st) = (if uint st \<le> uint f then uint f - uint st else uint f - uint st + 4294967296)"
  by (simp add: uint_sub_if')

lemma sub_signed:
  fixes f st :: ulong
  assumes "f \<le> 1000000" "st \<le> 1000000"
  shows "(0 <s f - st) = (st < f)"
proof -
  define a where "a = uint f"
  define b where "b = uint st"
  have ab: "0 \<le> a" "a \<le> 1000000" "0 \<le> b" "b \<le> 1000000"
    using assms by (simp_all add: a_def b_def word_le_def)
  have d: "uint (f - st) = (if b \<le> a then a - b else a - b + 4294967296)"
    by (simp add: uint_sub_ulong a_def b_def)
  have "(0 <s f - st) = (0 < (if uint (f - st) < 2147483648 then uint (f - st) else uint (f - st) - 4294967296))"
    by (simp add: word_sless_alt sint_ulong)
  also have "\<dots> = (b < a)"
    unfolding d using ab by auto
  also have "\<dots> = (st < f)"
    by (simp add: a_def b_def word_less_def)
  finally show ?thesis .
qed


lemma frequency_at_set: "frequency_at (frequency_set a i v) i = v"
  by (simp add: frequency_at_def frequency_set_def)

lemma add_clamped:
  fixes f st :: ulong
  assumes "0 < f" "f \<le> 1000000" "st \<le> 1000000"
  shows "0 < f + st"
proof -
  have u: "0 < unat f" "unat f \<le> 1000000" "unat st \<le> 1000000"
    using assms by (simp_all add: word_less_nat_alt word_le_nat_alt)
  then have "unat f + unat st < 2 ^ LENGTH(32)" by simp
  then have "unat (f + st) = unat f + unat st" by (simp only: unat_add_lem)
  with u show ?thesis by (simp add: word_less_nat_alt)
qed

lemma sub_clamped:
  fixes f st :: ulong
  assumes "st < f" "f \<le> 1000000"
  shows "0 < f - st \<and> f - st \<le> 1000000"
proof -
  have u: "unat st < unat f" "unat f \<le> 1000000"
    using assms by (simp_all add: word_less_nat_alt word_le_nat_alt)
  have "st \<le> f" using assms(1) by simp
  then have "unat (f - st) = unat f - unat st" by (rule unat_sub)
  with u show ?thesis by (simp add: word_less_nat_alt word_le_nat_alt)
qed

lemma pos_of_not_less:
  fixes f st :: ulong
  assumes "0 < f" "\<not> st < f"
  shows "0 < st"
  using assms by (simp add: word_less_nat_alt)

lemma changeFreq_active:
  "active_frequency (changeFreq rotDir now s) =
     (let f = active_frequency s; st = freqStep (settings s)
      in if rotDir = CLOCKWISE then (if f + st < maxFreq then f + st else maxFreq)
         else if rotDir = COUNTERCLOCKWISE then (if 0 <s f - st then f - st else st)
         else f)"
  by (simp add: changeFreq_def active_frequency_def Let_def frequency_at_set)

lemma changeFreq_keeps:
  "freqStep (settings (changeFreq rotDir now s)) = freqStep (settings s)"
  "channel (settings (changeFreq rotDir now s)) = channel (settings s)"
  "curDispFrame (changeFreq rotDir now s) = curDispFrame s"
  by (simp_all add: changeFreq_def Let_def)

text \<open>
  What one turn stores, in numbers: clockwise the sum, cut at \<open>maxFreq\<close>;
  counterclockwise the difference while it is positive, else the step. Nothing wraps.
\<close>

lemma changeFreq_clamps:
  assumes "0 < active_frequency s" "active_frequency s \<le> maxFreq"
    and "freqStep (settings s) \<le> maxFreq"
  shows "unat (active_frequency (changeFreq CLOCKWISE now s))
      = min (unat (active_frequency s) + unat (freqStep (settings s))) 1000000"
    and "unat (active_frequency (changeFreq COUNTERCLOCKWISE now s))
      = (if unat (freqStep (settings s)) < unat (active_frequency s)
         then unat (active_frequency s) - unat (freqStep (settings s))
         else unat (freqStep (settings s)))"
    and "active_frequency (changeFreq NOROTATION now s) = active_frequency s"
proof -
  let ?f = "active_frequency s" and ?st = "freqStep (settings s)"
  have u: "unat ?f \<le> 1000000" "unat ?st \<le> 1000000"
    using assms by (simp_all add: word_le_nat_alt maxFreq_def)
  then have "unat ?f + unat ?st < 2 ^ LENGTH(32)" by simp
  then have sum: "unat (?f + ?st) = unat ?f + unat ?st" by (simp only: unat_add_lem)
  show "unat (active_frequency (changeFreq CLOCKWISE now s)) = min (unat ?f + unat ?st) 1000000"
    by (simp add: changeFreq_active Let_def maxFreq_def word_less_nat_alt sum)
  have sg: "(0 <s ?f - ?st) = (?st < ?f)"
    using assms by (intro sub_signed) (simp_all add: maxFreq_def)
  have diff: "?st < ?f \<Longrightarrow> unat (?f - ?st) = unat ?f - unat ?st"
    by (rule unat_sub) simp
  show "unat (active_frequency (changeFreq COUNTERCLOCKWISE now s))
      = (if unat ?st < unat ?f then unat ?f - unat ?st else unat ?st)"
    by (simp add: changeFreq_active Let_def sg diff word_less_nat_alt)
  show "active_frequency (changeFreq NOROTATION now s) = ?f"
    by (simp add: changeFreq_active)
qed

lemma changeFreq_range:
  assumes "0 < active_frequency s" "active_frequency s \<le> maxFreq"
    and "freqStep (settings s) \<le> maxFreq"
  shows "0 < active_frequency (changeFreq rotDir now s) \<and>
         active_frequency (changeFreq rotDir now s) \<le> maxFreq"
proof (cases rotDir)
  case NOROTATION
  with assms show ?thesis by (simp add: changeFreq_active)
next
  case CLOCKWISE
  have "0 < active_frequency s + freqStep (settings s)"
    using assms by (intro add_clamped) (simp_all add: maxFreq_def)
  with CLOCKWISE show ?thesis
    by (auto simp add: changeFreq_active Let_def maxFreq_def intro: order.strict_implies_order)
next
  case COUNTERCLOCKWISE
  let ?f = "active_frequency s" and ?st = "freqStep (settings s)"
  have sg: "(0 <s ?f - ?st) = (?st < ?f)"
    using assms by (intro sub_signed) (simp_all add: maxFreq_def)
  show ?thesis
  proof (cases "?st < ?f")
    case True
    then have "0 < ?f - ?st \<and> ?f - ?st \<le> 1000000"
      using assms by (intro sub_clamped) (simp_all add: maxFreq_def)
    with True COUNTERCLOCKWISE sg show ?thesis
      by (simp add: changeFreq_active Let_def maxFreq_def)
  next
    case False
    from assms(1) False have "0 < ?st" by (rule pos_of_not_less)
    with False COUNTERCLOCKWISE sg assms(3) show ?thesis
      by (simp add: changeFreq_active Let_def)
  qed
qed

lemma encRotate_seq_home_range:
  assumes "curDispFrame s = HOME_PAGE"
    and "0 < active_frequency s" "active_frequency s \<le> maxFreq"
    and "freqStep (settings s) \<le> maxFreq"
  shows "0 < active_frequency (encRotate_seq m evs s) \<and>
         active_frequency (encRotate_seq m evs s) \<le> maxFreq"
  using assms
proof (induction evs arbitrary: s)
  case Nil
  then show ?case by simp
next
  case (Cons ev evs)
  obtain rotDir now where ev: "ev = (rotDir, now)" by (cases ev)
  let ?s = "changeFreq rotDir now s"
  have step: "encRotate m rotDir now s = ?s"
    using Cons.prems(1) by (simp add: encRotate_def)
  have r: "0 < active_frequency ?s \<and> active_frequency ?s \<le> maxFreq"
    using Cons.prems by (intro changeFreq_range)
  have "0 < active_frequency (encRotate_seq m evs ?s) \<and>
        active_frequency (encRotate_seq m evs ?s) \<le> maxFreq"
    using r Cons.prems by (intro Cons.IH) (simp_all add: changeFreq_keeps)
  then show ?case by (simp add: ev step)
qed



lemma encRotate_prev_home_active:
  assumes "curDispFrame_prev s = HOME_PAGE"
  shows "active_frequency_prev (encRotate_prev rotDir s) =
     (let f = active_frequency_prev s
      in if rotDir = COUNTERCLOCKWISE then (if f + 1000 < maxFreq then f + 1000 else maxFreq)
         else if rotDir = CLOCKWISE then (if 0 <s f - 1000 then f - 1000 else 0)
         else f)"
  using assms
  by (simp add: encRotate_prev_def active_frequency_prev_def Let_def frequency_at_set
      encFreqStep_def)

lemma encRotate_prev_home_frame:
  assumes "curDispFrame_prev s = HOME_PAGE"
  shows "curDispFrame_prev (encRotate_prev rotDir s) = HOME_PAGE"
  using assms by (simp add: encRotate_prev_def Let_def)

text \<open>
  Claim C1 asks that on the home page the active frequency stay in (0, maxFreq] under
  every sequence of rotate events, never becoming 0. The current sketch does so:
  \<open>changeFreq\<close> falls back to the step when the difference is not positive
  (\<open>changeFreq_clamps\<close>, \<open>encRotate_seq_home_range\<close>). The handler of the previous sketch
  stores 0 in that case: from its initial state, with channel 0 at 10000 Hz and the fixed
  step 1000, ten clockwise turns bring the frequency to 0.
\<close>

theorem encRotate_prev_reaches_zero:
  "curDispFrame_prev initial_state_prev = HOME_PAGE
   \<and> 0 < active_frequency_prev initial_state_prev
   \<and> active_frequency_prev initial_state_prev \<le> maxFreq
   \<and> active_frequency_prev (encRotate_prev_seq
         [CLOCKWISE, CLOCKWISE, CLOCKWISE, CLOCKWISE, CLOCKWISE,
          CLOCKWISE, CLOCKWISE, CLOCKWISE, CLOCKWISE] initial_state_prev) = 1000
   \<and> active_frequency_prev (encRotate_prev_seq
         [CLOCKWISE, CLOCKWISE, CLOCKWISE, CLOCKWISE, CLOCKWISE,
          CLOCKWISE, CLOCKWISE, CLOCKWISE, CLOCKWISE, CLOCKWISE] initial_state_prev) = 0"
proof -
  have c: "active_frequency_prev initial_state_prev = 10000"
      "curDispFrame_prev initial_state_prev = HOME_PAGE"
    by (simp_all add: initial_state_prev_def active_frequency_prev_def frequency_at_def
        channelFreqs_prev_def)
  have d: "active_frequency_prev (encRotate_prev_seq
         [CLOCKWISE, CLOCKWISE, CLOCKWISE, CLOCKWISE, CLOCKWISE,
          CLOCKWISE, CLOCKWISE, CLOCKWISE, CLOCKWISE] initial_state_prev) = 1000"
    using c by (simp add: encRotate_prev_home_active encRotate_prev_home_frame word_sless_alt)
  have e: "active_frequency_prev (encRotate_prev_seq
         [CLOCKWISE, CLOCKWISE, CLOCKWISE, CLOCKWISE, CLOCKWISE,
          CLOCKWISE, CLOCKWISE, CLOCKWISE, CLOCKWISE, CLOCKWISE] initial_state_prev) = 0"
    using c by (simp add: encRotate_prev_home_active encRotate_prev_home_frame word_sless_alt)
  show ?thesis
    using c d e by (simp add: maxFreq_def)
qed

section \<open>The menu selection\<close>

text \<open>In the current sketch \<open>changeMenu\<close> keeps the selection within the four items.\<close>

lemma byte_le_3:
  fixes x :: byte
  assumes "x \<le> 3"
  shows "x = 0 \<or> x = 1 \<or> x = 2 \<or> x = 3"
proof -
  have "unat x \<le> 3" using assms by (simp add: word_le_nat_alt)
  then have "unat x = 0 \<or> unat x = 1 \<or> unat x = 2 \<or> unat x = 3" by arith
  then show ?thesis by (simp add: word_unat_eq_iff)
qed

lemma changeMenu_frame: "curDispFrame (changeMenu rotDir s) = curDispFrame s"
  by (simp add: changeMenu_def Let_def)

lemma changeMenu_bound:
  assumes "curMenuSel s \<le> Version"
  shows "curMenuSel (changeMenu rotDir s) \<le> Version"
proof -
  have "curMenuSel s = 0 \<or> curMenuSel s = 1 \<or> curMenuSel s = 2 \<or> curMenuSel s = 3"
    using assms by (intro byte_le_3) (simp add: Version_def)
  then show ?thesis
    by (cases rotDir)
      (auto simp add: changeMenu_def menuItmStr_len_def Version_def Function_def Let_def)
qed

lemma changeMenu_clamps:
  assumes "curDispFrame s = MENU" and "curMenuSel s \<le> Version"
  shows "curMenuSel (encRotate_seq m evs s) \<le> Version"
  using assms
proof (induction evs arbitrary: s)
  case Nil
  then show ?case by simp
next
  case (Cons ev evs)
  obtain rotDir now where ev: "ev = (rotDir, now)" by (cases ev)
  have step: "encRotate m rotDir now s = changeMenu rotDir s"
    using Cons.prems(1) by (simp add: encRotate_def)
  have "curMenuSel (encRotate_seq m evs (changeMenu rotDir s)) \<le> Version"
    using Cons.prems by (intro Cons.IH) (simp_all add: changeMenu_frame changeMenu_bound)
  then show ?case by (simp add: ev step)
qed

text \<open>
  Claim C3 asks that the selection stay within [0, 3] under every sequence of rotate
  events in the menu. The handler of the previous sketch adds one in both directions
  (its clockwise branch has \<open>curMenuSel + 1\<close> where the current sketch has
  \<open>curMenuSel - 1\<close>): from \<open>Function\<close>, three counterclockwise turns reach \<open>Version\<close>
  and a clockwise turn then stores 4, outside the items.
\<close>

theorem encRotate_prev_menu_overrun:
  "curDispFrame_prev (initial_state_prev\<lparr>curDispFrame_prev := MENU\<rparr>) = MENU
   \<and> curMenuSel_prev (initial_state_prev\<lparr>curDispFrame_prev := MENU\<rparr>) = Function
   \<and> curMenuSel_prev (encRotate_prev_seq
        [COUNTERCLOCKWISE, COUNTERCLOCKWISE, COUNTERCLOCKWISE]
        (initial_state_prev\<lparr>curDispFrame_prev := MENU\<rparr>)) = Version
   \<and> curMenuSel_prev (encRotate_prev_seq
        [COUNTERCLOCKWISE, COUNTERCLOCKWISE, COUNTERCLOCKWISE, CLOCKWISE]
        (initial_state_prev\<lparr>curDispFrame_prev := MENU\<rparr>)) = 4
   \<and> \<not> (4 :: MenuItem) \<le> Version"
  by (simp add: initial_state_prev_def encRotate_prev_def menuItmStr_len_def Version_def
      Function_def Let_def)

section \<open>Toggling the output\<close>

text \<open>
  Claim C9. With the output off, one toggle switches it on and sends the mode of the
  current waveform (\<open>SIN\<close> gives \<open>MODE_SINE\<close>, \<open>CLK\<close> gives \<open>MODE_SQUARE1\<close>, \<open>TRI\<close>
  gives \<open>MODE_TRIANGLE\<close>); a second toggle switches it off again and sends \<open>MODE_OFF\<close>.
\<close>

theorem toggleOutput_twice:
  "outputStat s = OFF
   \<and> (waveform (settings s), mode) \<in> {(SIN, MODE_SINE), (CLK, MODE_SQUARE1), (TRI, MODE_TRIANGLE)}
   \<longrightarrow> toggleOutput s = s\<lparr>outputStat := ON, sigGen := sigGen s @ [setMode mode]\<rparr>
     \<and> toggleOutput (toggleOutput s)
         = s\<lparr>outputStat := OFF, sigGen := sigGen s @ [setMode mode, setMode MODE_OFF]\<rparr>"
  by (auto simp add: toggleOutput_def setADSigMode_def sigGen_send_def SIN_def CLK_def TRI_def
      Let_def)

text \<open>After the start-up of the sketch the output is off and the waveform is \<open>SIN\<close>.\<close>

theorem toggleOutput_twice_witness:
  "outputStat (fst (setup_sketch False (\<lambda>a. 0xFF) (initial_state False))) = OFF
   \<and> waveform (settings (fst (setup_sketch False (\<lambda>a. 0xFF) (initial_state False)))) = SIN
   \<and> sigGen (toggleOutput (fst (setup_sketch False (\<lambda>a. 0xFF) (initial_state False))))
     = sigGen (fst (setup_sketch False (\<lambda>a. 0xFF) (initial_state False))) @ [setMode MODE_SINE]
   \<and> outputStat (toggleOutput (fst (setup_sketch False (\<lambda>a. 0xFF) (initial_state False)))) = ON
   \<and> sigGen (toggleOutput (toggleOutput (fst (setup_sketch False (\<lambda>a. 0xFF) (initial_state False)))))
     = sigGen (fst (setup_sketch False (\<lambda>a. 0xFF) (initial_state False)))
         @ [setMode MODE_SINE, setMode MODE_OFF]
   \<and> outputStat (toggleOutput (toggleOutput
        (fst (setup_sketch False (\<lambda>a. 0xFF) (initial_state False))))) = OFF"
proof -
  let ?s = "fst (setup_sketch False (\<lambda>a. 0xFF) (initial_state False))"
  have h: "outputStat ?s = OFF" "waveform (settings ?s) = SIN"
    by (simp_all add: setup_sketch_def initial_state_def initial_settings_def toggleOutput_def
        setADFreq_def setADChannel_def sigGen_send_def Let_def)
  then have "outputStat ?s = OFF
      \<and> (waveform (settings ?s), MODE_SINE)
          \<in> {(SIN, MODE_SINE), (CLK, MODE_SQUARE1), (TRI, MODE_TRIANGLE)}"
    by simp
  with toggleOutput_twice [of ?s MODE_SINE]
  have T: "toggleOutput ?s = ?s\<lparr>outputStat := ON, sigGen := sigGen ?s @ [setMode MODE_SINE]\<rparr>
     \<and> toggleOutput (toggleOutput ?s)
         = ?s\<lparr>outputStat := OFF, sigGen := sigGen ?s @ [setMode MODE_SINE, setMode MODE_OFF]\<rparr>"
    by blast
  from T have a: "sigGen (toggleOutput ?s) = sigGen ?s @ [setMode MODE_SINE]"
      "outputStat (toggleOutput ?s) = ON"
    by simp_all
  from T have "toggleOutput (toggleOutput ?s)
         = ?s\<lparr>outputStat := OFF, sigGen := sigGen ?s @ [setMode MODE_SINE, setMode MODE_OFF]\<rparr>"
    by (rule conjunct2)
  then have b: "sigGen (toggleOutput (toggleOutput ?s))
        = sigGen ?s @ [setMode MODE_SINE, setMode MODE_OFF]"
      "outputStat (toggleOutput (toggleOutput ?s)) = OFF"
    by simp_all
  from h a b show ?thesis by (intro conjI)
qed

section \<open>Turning the encoder in the \<open>Function\<close> setting\<close>

lemma toggleOutput_flips:
  "outputStat (toggleOutput s) = (if outputStat s = OFF then ON else OFF)"
  by (simp add: toggleOutput_def setADSigMode_def sigGen_send_def Let_def)

lemma rotation_in_Function_toggles:
  assumes "curDispFrame s = SETTING" and "curMenuSel s = Function"
  shows "outputStat (encRotate m rotDir now s) \<noteq> outputStat s"
  using assms
  by (cases "outputStat s")
    (simp_all add: encRotate_def handleSettingChange_def toggleOutput_flips Let_def)

lemma setup_sketch_default:
  "fst (setup_sketch False e (initial_state False)) =
     \<lparr>settings = \<lparr>frequency = (10000, 1000), freqStep = 1000, waveform = SIN,
        channel = False, checksum = 0\<rparr>,
      isDispDirty = True, isFrequencyDirty = True, outputStat = OFF, curMenuSel = Function,
      lastFreqUpdate = 0, curDispFrame = HOME_PAGE, curRow = 0,
      sigGen = [setFrequency CHAN_0 10000, setFrequency CHAN_1 1000,
                setActiveFrequency CHAN_0, setMode MODE_OFF],
      invalid_bool_read = False\<rparr>"
  by (simp add: setup_sketch_def initial_state_def initial_settings_def channelFreqs_def
      encFreqStep_def setADFreq_def setADChannel_def toggleOutput_def sigGen_send_def Let_def)

lemma to_Function_setting:
  "encPress (encLongPress (encPress (fst (setup_sketch False e (initial_state False))))) =
     \<lparr>settings = \<lparr>frequency = (10000, 1000), freqStep = 1000, waveform = SIN,
        channel = False, checksum = 0\<rparr>,
      isDispDirty = True, isFrequencyDirty = True, outputStat = ON, curMenuSel = Function,
      lastFreqUpdate = 0, curDispFrame = SETTING, curRow = 0,
      sigGen = [setFrequency CHAN_0 10000, setFrequency CHAN_1 1000,
                setActiveFrequency CHAN_0, setMode MODE_OFF, setMode MODE_SINE],
      invalid_bool_read = False\<rparr>"
proof -
  let ?s0 = "fst (setup_sketch False e (initial_state False))"
  have a: "encPress ?s0 = ?s0\<lparr>outputStat := ON, sigGen := sigGen ?s0 @ [setMode MODE_SINE]\<rparr>"
    unfolding setup_sketch_default
    by (simp add: encPress_def toggleOutput_def setADSigMode_def sigGen_send_def Let_def)
  have b: "encLongPress (encPress ?s0) =
      ?s0\<lparr>outputStat := ON, sigGen := sigGen ?s0 @ [setMode MODE_SINE], curDispFrame := MENU\<rparr>"
    unfolding a unfolding setup_sketch_default
    by (simp add: encLongPress_def Let_def)
  have c: "encPress (encLongPress (encPress ?s0)) =
      ?s0\<lparr>outputStat := ON, sigGen := sigGen ?s0 @ [setMode MODE_SINE], curDispFrame := SETTING\<rparr>"
    unfolding b unfolding setup_sketch_default
    by (simp add: encPress_def Let_def)
  show ?thesis
    unfolding c unfolding setup_sketch_default by simp
qed


text \<open>
  Claim C8 asks that a rotate event in the \<open>Function\<close> setting change the waveform,
  re-apply the mode if and only if the output is on, and leave the output status alone.
  The handler calls \<open>toggleOutput()\<close> after storing the new waveform, so every such event
  flips the output status. From the start-up, a click (output on, \<open>MODE_SINE\<close>), a long
  press and a click lead to the \<open>Function\<close> setting; one clockwise turn there sets the
  waveform to \<open>CLK\<close>, switches the output off and sends \<open>MODE_OFF\<close>, not the mode of the
  new waveform.
\<close>

theorem rotation_in_Function_switches_output_off:
  "curDispFrame (encPress (encLongPress (encPress
      (fst (setup_sketch False (\<lambda>a. 0xFF) (initial_state False)))))) = SETTING
   \<and> curMenuSel (encPress (encLongPress (encPress
      (fst (setup_sketch False (\<lambda>a. 0xFF) (initial_state False)))))) = Function
   \<and> outputStat (encPress (encLongPress (encPress
      (fst (setup_sketch False (\<lambda>a. 0xFF) (initial_state False)))))) = ON
   \<and> waveform (settings (encPress (encLongPress (encPress
      (fst (setup_sketch False (\<lambda>a. 0xFF) (initial_state False))))))) = SIN
   \<and> waveform (settings (encRotate exact_libm CLOCKWISE 5000 (encPress (encLongPress (encPress
      (fst (setup_sketch False (\<lambda>a. 0xFF) (initial_state False)))))))) = CLK
   \<and> outputStat (encRotate exact_libm CLOCKWISE 5000 (encPress (encLongPress (encPress
      (fst (setup_sketch False (\<lambda>a. 0xFF) (initial_state False))))))) = OFF
   \<and> sigGen (encRotate exact_libm CLOCKWISE 5000 (encPress (encLongPress (encPress
      (fst (setup_sketch False (\<lambda>a. 0xFF) (initial_state False)))))))
     = sigGen (encPress (encLongPress (encPress
         (fst (setup_sketch False (\<lambda>a. 0xFF) (initial_state False)))))) @ [setMode MODE_OFF]"
  unfolding to_Function_setting
  by (simp add: encRotate_def handleSettingChange_def toggleOutput_def sigGen_send_def
      waveformStr_len_def SIN_def CLK_def Let_def)


section \<open>The step editor\<close>

text \<open>
  \<open>changeStep\<close> goes through the floating-point \<open>log10\<close> and \<open>pow\<close> of the C library and
  cuts the results to integers, so what it stores depends on the library only through
  three facts, collected in \<open>libm_accurate\<close>: \<open>log10\<close> of a power of ten up to
  \<open>maxFreqStep\<close> is not below the exponent and less than one above it, \<open>log10\<close> of
  \<open>maxFreqStep\<close> is not above 5, and \<open>pow\<close> is closer than one half to the power of ten.
  The functions on the real numbers satisfy them.
\<close>

lemma exact_libm_exact:
  "log10 exact_libm (10 ^ k) = real k" "pow exact_libm 10 (real k) = 10 ^ k"
  by (simp_all add: exact_libm_def powr_realpow)

lemma libm_accurate_exact: "libm_accurate exact_libm"
  unfolding libm_accurate_def
proof (intro conjI allI impI)
  fix k :: nat
  show "real k \<le> log10 exact_libm (10 ^ k)" unfolding exact_libm_exact by simp
  show "log10 exact_libm (10 ^ k) < real k + 1" unfolding exact_libm_exact by simp
  show "\<bar>pow exact_libm 10 (real k) - 10 ^ k\<bar> < 1 / 2" unfolding exact_libm_exact by simp
next
  show "log10 exact_libm (10 ^ 5) \<le> 5" unfolding exact_libm_exact by simp
qed

lemma trunc_between:
  assumes "real n \<le> x" and "x < real n + 1"
  shows "trunc x = int n"
proof -
  have "0 \<le> x" using assms(1) by (rule order_trans [rotated]) simp
  moreover have "\<lfloor>x\<rfloor> = int n" using assms by linarith
  ultimately show ?thesis by (simp add: trunc_def)
qed

lemma arduino_round_near:
  assumes "\<bar>y - real n\<bar> < 1 / 2" and "0 < n"
  shows "arduino_round y = int n"
proof -
  have y: "0 \<le> y" using assms by linarith
  have "\<lfloor>y + 1 / 2\<rfloor> = int n" using assms(1) by linarith
  with y show ?thesis by (simp add: arduino_round_def trunc_def)
qed

lemma trunc_of_nat: "trunc (real n) = int n"
  by (simp add: trunc_def)

lemma arduino_round_of_nat: "arduino_round (real n) = int n"
proof -
  have "\<lfloor>real n + 1 / 2\<rfloor> = int n" by linarith
  then show ?thesis by (simp add: arduino_round_def trunc_def)
qed

lemma changeStep_freqStep:
  "freqStep (settings (changeStep m rotDir s)) =
     (let idc = (word_of_int (trunc (log10 m (real (unat (freqStep (settings s)))))) :: uint);
          idc' =
            (if rotDir = CLOCKWISE then
               (word_of_int (trunc
                  (if real (unat idc) < log10 m (real (unat maxFreqStep))
                   then real (unat (idc + 1))
                   else log10 m (real (unat maxFreqStep)))) :: uint)
             else (if 1 < idc then idc - 1 else 0))
      in word_of_int (arduino_round (pow m 10 (real (unat idc')))))"
  by (simp add: changeStep_def Let_def)

lemma changeStep_keeps:
  "curDispFrame (changeStep m rotDir s) = curDispFrame s"
  "curMenuSel (changeStep m rotDir s) = curMenuSel s"
  "curRow (changeStep m rotDir s) = curRow s"
  by (simp_all add: changeStep_def Let_def)

lemma changeStep_power:
  assumes m: "libm_accurate m" and k: "k \<le> 5" and st: "freqStep (settings s) = 10 ^ k"
  shows "freqStep (settings (changeStep m CLOCKWISE s)) = 10 ^ min (k + 1) 5"
    and "freqStep (settings (changeStep m COUNTERCLOCKWISE s)) = 10 ^ (k - 1)"
proof -
  have a: "\<forall>j \<le> 5. real j \<le> log10 m (10 ^ j) \<and> log10 m (10 ^ j) < real j + 1"
    and b: "log10 m (10 ^ 5) \<le> 5"
    and c: "\<forall>j \<le> 5. \<bar>pow m 10 (real j) - 10 ^ j\<bar> < 1 / 2"
    using m unfolding libm_accurate_def by blast+
  have l: "trunc (log10 m (10 ^ j)) = int j" if "j \<le> 5" for j
    using a that by (intro trunc_between) blast+
  have tl: "trunc (log10 m 1) = 0" "trunc (log10 m 10) = 1" "trunc (log10 m 100) = 2"
      "trunc (log10 m 1000) = 3" "trunc (log10 m 10000) = 4" "trunc (log10 m 100000) = 5"
    using l [of 0] l [of 1] l [of 2] l [of 3] l [of 4] l [of 5] by simp_all
  have "real 5 \<le> log10 m (10 ^ 5)" using a by blast
  with b have l5: "log10 m 100000 = 5" by simp
  have p: "arduino_round (pow m 10 (real j)) = int (10 ^ j)" if "j \<le> 5" for j
  proof (rule arduino_round_near)
    show "\<bar>pow m 10 (real j) - real (10 ^ j)\<bar> < 1 / 2" using c that by simp
    show "0 < (10 :: nat) ^ j" by simp
  qed
  have rp: "arduino_round (pow m 10 0) = 1" "arduino_round (pow m 10 1) = 10"
      "arduino_round (pow m 10 2) = 100" "arduino_round (pow m 10 3) = 1000"
      "arduino_round (pow m 10 4) = 10000" "arduino_round (pow m 10 5) = 100000"
    using p [of 0] p [of 1] p [of 2] p [of 3] p [of 4] p [of 5] by simp_all
  have t: "trunc 1 = 1" "trunc 2 = 2" "trunc 3 = 3" "trunc 4 = 4" "trunc 5 = 5"
    by (simp_all add: trunc_def)
  from k consider "k = 0" | "k = 1" | "k = 2" | "k = 3" | "k = 4" | "k = 5" by linarith
  then show "freqStep (settings (changeStep m CLOCKWISE s)) = 10 ^ min (k + 1) 5"
    by cases (simp_all add: changeStep_freqStep st maxFreqStep_def tl l5 rp t Let_def)
  from k consider "k = 0" | "k = 1" | "k = 2" | "k = 3" | "k = 4" | "k = 5" by linarith
  then show "freqStep (settings (changeStep m COUNTERCLOCKWISE s)) = 10 ^ (k - 1)"
    by cases (simp_all add: changeStep_freqStep st maxFreqStep_def tl l5 rp t Let_def)
qed

text \<open>
  In the step editor (the \<open>Frequency\<close> setting with the cursor on row 1) a rotate event
  is a call of \<open>changeStep\<close>, which leaves the frame, the selection and the row alone.
\<close>

lemma encRotate_seq_append:
  "encRotate_seq m (xs @ ys) s = encRotate_seq m ys (encRotate_seq m xs s)"
  by (induction xs arbitrary: s) auto

lemma encRotate_in_step_editor:
  assumes "curDispFrame s = SETTING" "curMenuSel s = Frequency" "curRow s = 1"
  shows "encRotate m rotDir now s = changeStep m rotDir s"
  using assms by (simp add: encRotate_def handleSettingChange_def Function_def Frequency_def)

lemma clockwise_turns:
  assumes "libm_accurate m"
    and "curDispFrame s = SETTING" "curMenuSel s = Frequency" "curRow s = 1"
    and "k \<le> 5" "freqStep (settings s) = 10 ^ k"
  shows "curDispFrame (encRotate_seq m (map (Pair CLOCKWISE) ts) s) = SETTING
    \<and> curMenuSel (encRotate_seq m (map (Pair CLOCKWISE) ts) s) = Frequency
    \<and> curRow (encRotate_seq m (map (Pair CLOCKWISE) ts) s) = 1
    \<and> freqStep (settings (encRotate_seq m (map (Pair CLOCKWISE) ts) s))
        = 10 ^ min (k + length ts) 5"
  using assms(2-)
proof (induction ts arbitrary: s k)
  case Nil
  then show ?case by simp
next
  case (Cons t ts)
  let ?s = "changeStep m CLOCKWISE s"
  have e: "encRotate m CLOCKWISE t s = ?s"
    using Cons.prems by (intro encRotate_in_step_editor)
  have st: "freqStep (settings ?s) = 10 ^ min (k + 1) 5"
    using assms(1) Cons.prems(4,5) by (rule changeStep_power(1))
  have "curDispFrame (encRotate_seq m (map (Pair CLOCKWISE) ts) ?s) = SETTING
    \<and> curMenuSel (encRotate_seq m (map (Pair CLOCKWISE) ts) ?s) = Frequency
    \<and> curRow (encRotate_seq m (map (Pair CLOCKWISE) ts) ?s) = 1
    \<and> freqStep (settings (encRotate_seq m (map (Pair CLOCKWISE) ts) ?s))
        = 10 ^ min (min (k + 1) 5 + length ts) 5"
    using Cons.prems st by (intro Cons.IH) (simp_all add: changeStep_keeps)
  moreover have "min (min (k + 1) 5 + length ts) 5 = min (k + length (t # ts)) 5"
    by simp
  ultimately show ?case by (simp add: e)
qed

lemma counterclockwise_turns:
  assumes "libm_accurate m"
    and "curDispFrame s = SETTING" "curMenuSel s = Frequency" "curRow s = 1"
    and "k \<le> 5" "freqStep (settings s) = 10 ^ k"
  shows "curDispFrame (encRotate_seq m (map (Pair COUNTERCLOCKWISE) ts) s) = SETTING
    \<and> curMenuSel (encRotate_seq m (map (Pair COUNTERCLOCKWISE) ts) s) = Frequency
    \<and> curRow (encRotate_seq m (map (Pair COUNTERCLOCKWISE) ts) s) = 1
    \<and> freqStep (settings (encRotate_seq m (map (Pair COUNTERCLOCKWISE) ts) s))
        = 10 ^ (k - length ts)"
  using assms(2-)
proof (induction ts arbitrary: s k)
  case Nil
  then show ?case by simp
next
  case (Cons t ts)
  let ?s = "changeStep m COUNTERCLOCKWISE s"
  have e: "encRotate m COUNTERCLOCKWISE t s = ?s"
    using Cons.prems by (intro encRotate_in_step_editor)
  have st: "freqStep (settings ?s) = 10 ^ (k - 1)"
    using assms(1) Cons.prems(4,5) by (rule changeStep_power(2))
  have "curDispFrame (encRotate_seq m (map (Pair COUNTERCLOCKWISE) ts) ?s) = SETTING
    \<and> curMenuSel (encRotate_seq m (map (Pair COUNTERCLOCKWISE) ts) ?s) = Frequency
    \<and> curRow (encRotate_seq m (map (Pair COUNTERCLOCKWISE) ts) ?s) = 1
    \<and> freqStep (settings (encRotate_seq m (map (Pair COUNTERCLOCKWISE) ts) ?s))
        = 10 ^ (k - 1 - length ts)"
    using Cons.prems st by (intro Cons.IH) (simp_all add: changeStep_keeps)
  then show ?case by (simp add: e)
qed

text \<open>
  The three facts are needed: with a library whose \<open>log10 1000\<close> falls short of 3, the
  exponent is cut to 2 and a clockwise turn at the step 1000 stores 1000 again.
\<close>

lemma changeStep_with_inexact_library:
  "freqStep (settings (changeStep inexact_libm CLOCKWISE
      (s\<lparr>settings := (settings s)\<lparr>freqStep := 1000\<rparr>\<rparr>))) = 1000"
proof -
  have t: "trunc (log10 inexact_libm 1000) = 2" "trunc 3 = 3"
    by (simp_all add: inexact_libm_def trunc_def)
  have l: "log10 inexact_libm 100000 = 5"
    using exact_libm_exact(1) [of 5] by (simp add: exact_libm_def inexact_libm_def)
  have p: "pow inexact_libm 10 3 = 1000"
    using exact_libm_exact(2) [of 3] by (simp add: exact_libm_def inexact_libm_def)
  have r: "arduino_round 1000 = 1000"
    using arduino_round_of_nat [of 1000] by simp
  show ?thesis
    by (simp add: changeStep_freqStep maxFreqStep_def t l p r Let_def)
qed

text \<open>
  From the start-up, a long press (menu), one clockwise turn (\<open>Frequency\<close>) and two
  clicks (the setting, then row 1) lead into the step editor, with the step 1000.
\<close>

lemma to_step_editor:
  "encPress (encPress (encRotate m CLOCKWISE now (encLongPress
      (fst (setup_sketch False e (initial_state False)))))) =
     \<lparr>settings = \<lparr>frequency = (10000, 1000), freqStep = 1000, waveform = SIN,
        channel = False, checksum = 0\<rparr>,
      isDispDirty = True, isFrequencyDirty = True, outputStat = OFF, curMenuSel = Frequency,
      lastFreqUpdate = 0, curDispFrame = SETTING, curRow = 1,
      sigGen = [setFrequency CHAN_0 10000, setFrequency CHAN_1 1000,
                setActiveFrequency CHAN_0, setMode MODE_OFF],
      invalid_bool_read = False\<rparr>"
proof -
  let ?s0 = "fst (setup_sketch False e (initial_state False))"
  have a: "encLongPress ?s0 = ?s0\<lparr>curDispFrame := MENU\<rparr>"
    unfolding setup_sketch_default by (simp add: encLongPress_def Let_def)
  have b: "encRotate m CLOCKWISE now (encLongPress ?s0) =
      ?s0\<lparr>curDispFrame := MENU, curMenuSel := Frequency\<rparr>"
    unfolding a unfolding setup_sketch_default
    by (simp add: encRotate_def changeMenu_def menuItmStr_len_def Function_def Frequency_def
        Let_def)
  have c: "encPress (encRotate m CLOCKWISE now (encLongPress ?s0)) =
      ?s0\<lparr>curDispFrame := SETTING, curMenuSel := Frequency\<rparr>"
    unfolding b unfolding setup_sketch_default by (simp add: encPress_def Let_def)
  have d: "encPress (encPress (encRotate m CLOCKWISE now (encLongPress ?s0))) =
      ?s0\<lparr>curDispFrame := SETTING, curMenuSel := Frequency, curRow := 1\<rparr>"
    unfolding c unfolding setup_sketch_default by (simp add: encPress_def Let_def)
  show ?thesis
    unfolding d unfolding setup_sketch_default by simp
qed


text \<open>
  Claim C6. In the step editor (frame \<open>SETTING\<close>, selection \<open>Frequency\<close>, row 1), with
  the \<open>log10\<close> and \<open>pow\<close> of the library accurate in the sense of \<open>libm_accurate\<close>, and
  starting from the step 1: after \<open>n\<close> clockwise rotate events the step is \<open>10 ^ n\<close>
  for \<open>n \<le> 5\<close>, that is 10, 100, 1000, 10000, 100000 in that order, and
  \<open>maxFreqStep = 100000\<close> for every \<open>n\<close> beyond; \<open>n'\<close> counterclockwise rotate events
  after them lead down by one power of ten each, through 10000, 1000, 100 and 10 to 1,
  and leave the step at 1 from there on (the subtraction of the exponents is the one of
  the natural numbers). Every value on the way is a power of ten.
\<close>

theorem step_editor_powers_of_ten:
  "libm_accurate m \<and> curDispFrame s = SETTING \<and> curMenuSel s = Frequency \<and> curRow s = 1
     \<and> freqStep (settings s) = 1
   \<longrightarrow> freqStep (settings (encRotate_seq m (map (Pair CLOCKWISE) ts) s))
         = 10 ^ min (length ts) 5
     \<and> freqStep (settings (encRotate_seq m
          (map (Pair CLOCKWISE) ts @ map (Pair COUNTERCLOCKWISE) ts') s))
         = 10 ^ (min (length ts) 5 - length ts')"
proof (intro impI)
  assume h: "libm_accurate m \<and> curDispFrame s = SETTING \<and> curMenuSel s = Frequency
    \<and> curRow s = 1 \<and> freqStep (settings s) = 1"
  let ?s = "encRotate_seq m (map (Pair CLOCKWISE) ts) s"
  have "freqStep (settings s) = 10 ^ 0" using h by simp
  with h have c: "curDispFrame ?s = SETTING \<and> curMenuSel ?s = Frequency \<and> curRow ?s = 1
      \<and> freqStep (settings ?s) = 10 ^ min (0 + length ts) 5"
    by (intro clockwise_turns) simp_all
  then have "freqStep (settings (encRotate_seq m (map (Pair COUNTERCLOCKWISE) ts') ?s))
      = 10 ^ (min (0 + length ts) 5 - length ts')"
    using h by (intro counterclockwise_turns [THEN conjunct2, THEN conjunct2, THEN conjunct2])
      simp_all
  with c show "freqStep (settings ?s) = 10 ^ min (length ts) 5
     \<and> freqStep (settings (encRotate_seq m
          (map (Pair CLOCKWISE) ts @ map (Pair COUNTERCLOCKWISE) ts') s))
         = 10 ^ (min (length ts) 5 - length ts')"
    by (simp add: encRotate_seq_append)
qed

text \<open>
  The theorem at a state the sketch reaches, with the functions on the real numbers as the
  library: from the step editor entered after the start-up, three counterclockwise turns
  bring the step from 1000 to 1; then seven clockwise turns give 100000 and six
  counterclockwise turns after them give 1.
\<close>

theorem step_editor_powers_of_ten_witness:
  "curDispFrame
     (encRotate_seq exact_libm (map (Pair COUNTERCLOCKWISE) [4000, 4100, 4200])
      (encPress (encPress (encRotate exact_libm CLOCKWISE 3000 (encLongPress
        (fst (setup_sketch False (\<lambda>a. 0xFF) (initial_state False)))))))) = SETTING
   \<and> curMenuSel
     (encRotate_seq exact_libm (map (Pair COUNTERCLOCKWISE) [4000, 4100, 4200])
      (encPress (encPress (encRotate exact_libm CLOCKWISE 3000 (encLongPress
        (fst (setup_sketch False (\<lambda>a. 0xFF) (initial_state False)))))))) = Frequency
   \<and> curRow
     (encRotate_seq exact_libm (map (Pair COUNTERCLOCKWISE) [4000, 4100, 4200])
      (encPress (encPress (encRotate exact_libm CLOCKWISE 3000 (encLongPress
        (fst (setup_sketch False (\<lambda>a. 0xFF) (initial_state False)))))))) = 1
   \<and> freqStep (settings
     (encRotate_seq exact_libm (map (Pair COUNTERCLOCKWISE) [4000, 4100, 4200])
      (encPress (encPress (encRotate exact_libm CLOCKWISE 3000 (encLongPress
        (fst (setup_sketch False (\<lambda>a. 0xFF) (initial_state False))))))))) = 1
   \<and> freqStep (settings (encRotate_seq exact_libm
       (map (Pair CLOCKWISE) [5000, 5100, 5200, 5300, 5400, 5500, 5600])
     (encRotate_seq exact_libm (map (Pair COUNTERCLOCKWISE) [4000, 4100, 4200])
      (encPress (encPress (encRotate exact_libm CLOCKWISE 3000 (encLongPress
        (fst (setup_sketch False (\<lambda>a. 0xFF) (initial_state False)))))))))) = 100000
   \<and> freqStep (settings (encRotate_seq exact_libm
       (map (Pair CLOCKWISE) [5000, 5100, 5200, 5300, 5400, 5500, 5600]
        @ map (Pair COUNTERCLOCKWISE) [6000, 6100, 6200, 6300, 6400, 6500])
     (encRotate_seq exact_libm (map (Pair COUNTERCLOCKWISE) [4000, 4100, 4200])
      (encPress (encPress (encRotate exact_libm CLOCKWISE 3000 (encLongPress
        (fst (setup_sketch False (\<lambda>a. 0xFF) (initial_state False)))))))))) = 1"
proof -
  let ?s4 = "encPress (encPress (encRotate exact_libm CLOCKWISE 3000 (encLongPress
        (fst (setup_sketch False (\<lambda>a. 0xFF) (initial_state False))))))"
  let ?start = "encRotate_seq exact_libm (map (Pair COUNTERCLOCKWISE) [4000, 4100, 4200]) ?s4"
  have "freqStep (settings ?s4) = 10 ^ 3"
    unfolding to_step_editor by simp
  then have "curDispFrame ?start = SETTING \<and> curMenuSel ?start = Frequency
      \<and> curRow ?start = 1 \<and> freqStep (settings ?start) = 10 ^ (3 - length [4000, 4100, 4200 :: ulong])"
    by (intro counterclockwise_turns [OF libm_accurate_exact])
      (simp_all add: to_step_editor)
  then have h: "curDispFrame ?start = SETTING \<and> curMenuSel ?start = Frequency
      \<and> curRow ?start = 1 \<and> freqStep (settings ?start) = 1"
    by simp
  show ?thesis
    using h libm_accurate_exact
      step_editor_powers_of_ten [of exact_libm ?start
        "[5000, 5100, 5200, 5300, 5400, 5500, 5600]"
        "[6000, 6100, 6200, 6300, 6400, 6500]"]
    by simp
qed

section \<open>The debounced commit of the frequency\<close>

lemma tick_early:
  assumes "now - lastFreqUpdate s \<le> freqUpdateDelay"
  shows "loop_RUNNING_FREQUENCY now s = s"
  using assms by (simp add: loop_RUNNING_FREQUENCY_def not_less [symmetric])

lemma tick_clean:
  assumes "\<not> isFrequencyDirty s"
  shows "loop_RUNNING_FREQUENCY now s = s"
  using assms by (simp add: loop_RUNNING_FREQUENCY_def)

lemma tick_late:
  assumes "isFrequencyDirty s" and "freqUpdateDelay < now - lastFreqUpdate s"
  shows "loop_RUNNING_FREQUENCY now s =
    s\<lparr>sigGen := sigGen s @ [setFrequency (active_channel s) (active_frequency s)],
      isFrequencyDirty := False\<rparr>"
  using assms
  by (simp add: loop_RUNNING_FREQUENCY_def setADFreq_def sigGen_send_def active_channel_def
      active_frequency_def)

lemma ticks_early:
  assumes "\<forall>now \<in> set nows. now - lastFreqUpdate s \<le> freqUpdateDelay"
  shows "ticks nows s = s"
  using assms by (induction nows) (simp_all add: tick_early)

lemma ticks_clean:
  assumes "\<not> isFrequencyDirty s"
  shows "ticks nows s = s"
  using assms by (induction nows) (simp_all add: tick_clean)

lemma changeFreq_staged:
  "isFrequencyDirty (changeFreq rotDir t s)" "lastFreqUpdate (changeFreq rotDir t s) = t"
  "sigGen (changeFreq rotDir t s) = sigGen s"
  by (simp_all add: changeFreq_def Let_def)

text \<open>
  Claim C2, as the code has it. Let a frequency be staged at time \<open>t\<close>, after any
  number of earlier stagings: the flag is set and \<open>t\<close> is recorded. Every run of the
  debounce block at a time \<open>n\<close> with \<open>n - t \<le> 400\<close> leaves the state as it is, so
  \<open>setFrequency\<close> is not called; the first run at a time \<open>now\<close> with \<open>now - t > 400\<close>
  calls \<open>setFrequency\<close> once, for the active channel with the frequency staged last, and
  clears the flag; later runs do nothing. The differences are those of \<open>unsigned long\<close>.
\<close>

theorem commit_after_quiet_period:
  "(\<forall>n \<in> set early. n - t \<le> freqUpdateDelay) \<and> freqUpdateDelay < now - t \<longrightarrow>
   (let s1 = changeFreq rotDir t (changeFreq_seq evs s);
        s2 = ticks early s1;
        s3 = loop_RUNNING_FREQUENCY now s2
    in isFrequencyDirty s1 \<and> lastFreqUpdate s1 = t
     \<and> s2 = s1
     \<and> s3 = s1\<lparr>sigGen := sigGen s1 @ [setFrequency (active_channel s1) (active_frequency s1)],
              isFrequencyDirty := False\<rparr>
     \<and> ticks later s3 = s3)"
proof (intro impI)
  let ?s1 = "changeFreq rotDir t (changeFreq_seq evs s)"
  assume h: "(\<forall>n \<in> set early. n - t \<le> freqUpdateDelay) \<and> freqUpdateDelay < now - t"
  have e: "ticks early ?s1 = ?s1"
    using h by (intro ticks_early) (simp add: changeFreq_staged)
  have l: "loop_RUNNING_FREQUENCY now ?s1 =
      ?s1\<lparr>sigGen := sigGen ?s1 @ [setFrequency (active_channel ?s1) (active_frequency ?s1)],
          isFrequencyDirty := False\<rparr>"
    using h by (intro tick_late) (simp_all add: changeFreq_staged)
  have c: "ticks later (loop_RUNNING_FREQUENCY now ?s1) = loop_RUNNING_FREQUENCY now ?s1"
    by (rule ticks_clean) (simp add: l)
  show "let s1 = ?s1; s2 = ticks early s1; s3 = loop_RUNNING_FREQUENCY now s2
    in isFrequencyDirty s1 \<and> lastFreqUpdate s1 = t
     \<and> s2 = s1
     \<and> s3 = s1\<lparr>sigGen := sigGen s1 @ [setFrequency (active_channel s1) (active_frequency s1)],
              isFrequencyDirty := False\<rparr>
     \<and> ticks later s3 = s3"
    unfolding Let_def e using l c by (simp add: changeFreq_staged)
qed

text \<open>
  Two stagings from the initial state, at 900 and at 1000; runs at 1100 and 1400, then at
  1401, where the one call is made, with the frequency 12000 staged last.
\<close>

theorem commit_after_quiet_period_witness:
  "(1100 :: ulong) - 1000 \<le> freqUpdateDelay \<and> (1400 :: ulong) - 1000 \<le> freqUpdateDelay
   \<and> freqUpdateDelay < (1401 :: ulong) - 1000
   \<and> ticks [1100, 1400]
         (changeFreq CLOCKWISE 1000 (changeFreq_seq [(CLOCKWISE, 900)] (initial_state False)))
       = changeFreq CLOCKWISE 1000 (changeFreq_seq [(CLOCKWISE, 900)] (initial_state False))
   \<and> sigGen (loop_RUNNING_FREQUENCY 1401 (ticks [1100, 1400]
         (changeFreq CLOCKWISE 1000 (changeFreq_seq [(CLOCKWISE, 900)] (initial_state False)))))
       = [setFrequency CHAN_0 12000]"
proof -
  let ?s1 = "changeFreq CLOCKWISE 1000 (changeFreq_seq [(CLOCKWISE, 900)] (initial_state False))"
  have h: "(\<forall>n \<in> set [1100, 1400 :: ulong]. n - 1000 \<le> freqUpdateDelay)
      \<and> freqUpdateDelay < (1401 :: ulong) - 1000"
    by (simp add: freqUpdateDelay_def)
  let ?s0 = "changeFreq CLOCKWISE 900 (initial_state False)"
  have i: "active_frequency (initial_state False) = 10000"
      "freqStep (settings (initial_state False)) = 1000"
      "channel (settings (initial_state False)) = False"
      "sigGen (initial_state False) = []"
    by (simp_all add: initial_state_def initial_settings_def active_frequency_def
        frequency_at_def channelFreqs_def encFreqStep_def)
  have j: "active_frequency ?s0 = 11000"
    by (simp add: changeFreq_active i maxFreq_def)
  have v: "sigGen ?s1 = []" "active_channel ?s1 = CHAN_0" "active_frequency ?s1 = 12000"
    by (simp_all add: changeFreq_staged changeFreq_active changeFreq_keeps active_channel_def
        i j maxFreq_def)
  have T: "ticks [1100, 1400] ?s1 = ?s1
      \<and> loop_RUNNING_FREQUENCY 1401 (ticks [1100, 1400] ?s1)
          = ?s1\<lparr>sigGen := sigGen ?s1 @ [setFrequency (active_channel ?s1) (active_frequency ?s1)],
                isFrequencyDirty := False\<rparr>"
    using h commit_after_quiet_period
      [of "[1100, 1400]" 1000 1401 CLOCKWISE "[(CLOCKWISE, 900)]" "initial_state False" "[]"]
    unfolding Let_def changeFreq_seq.simps by blast
  from T have e: "ticks [1100, 1400] ?s1 = ?s1" by (rule conjunct1)
  from T have "loop_RUNNING_FREQUENCY 1401 (ticks [1100, 1400] ?s1)
      = ?s1\<lparr>sigGen := sigGen ?s1 @ [setFrequency (active_channel ?s1) (active_frequency ?s1)],
                isFrequencyDirty := False\<rparr>"
    by (rule conjunct2)
  then have "sigGen (loop_RUNNING_FREQUENCY 1401 (ticks [1100, 1400] ?s1))
      = sigGen (?s1\<lparr>sigGen := sigGen ?s1 @ [setFrequency (active_channel ?s1) (active_frequency ?s1)],
                isFrequencyDirty := False\<rparr>)"
    by (rule arg_cong)
  also have "\<dots> = [setFrequency CHAN_0 12000]"
    unfolding v by simp
  finally have l: "sigGen (loop_RUNNING_FREQUENCY 1401 (ticks [1100, 1400] ?s1))
      = [setFrequency CHAN_0 12000]" .
  have g: "(1100 :: ulong) - 1000 \<le> freqUpdateDelay \<and> (1400 :: ulong) - 1000 \<le> freqUpdateDelay
      \<and> freqUpdateDelay < (1401 :: ulong) - 1000"
    by (simp add: freqUpdateDelay_def)
  from g e l show ?thesis by blast
qed

text \<open>
  The claim as stated puts the commit at \<open>now - t \<ge> 400\<close>. After a staging at 1000, the
  run at 1400 is the first with \<open>now - t \<ge> 400\<close>, and it makes no call: the code asks for
  more than 400.
\<close>

theorem no_commit_at_400_ms:
  "freqUpdateDelay \<le> (1400 :: ulong) - 1000
   \<and> lastFreqUpdate (changeFreq CLOCKWISE 1000 (initial_state False)) = 1000
   \<and> isFrequencyDirty (changeFreq CLOCKWISE 1000 (initial_state False))
   \<and> sigGen (changeFreq CLOCKWISE 1000 (initial_state False)) = []
   \<and> sigGen (loop_RUNNING_FREQUENCY 1400 (changeFreq CLOCKWISE 1000 (initial_state False))) = []"
proof -
  let ?s1 = "changeFreq CLOCKWISE 1000 (initial_state False)"
  have e: "sigGen ?s1 = []"
    by (simp add: changeFreq_staged initial_state_def)
  have "(1400 :: ulong) - lastFreqUpdate ?s1 \<le> freqUpdateDelay"
    by (simp add: changeFreq_staged freqUpdateDelay_def)
  then have "loop_RUNNING_FREQUENCY 1400 ?s1 = ?s1" by (rule tick_early)
  with e show ?thesis by (simp add: changeFreq_staged freqUpdateDelay_def)
qed

section \<open>The first commit after the start\<close>

lemma setFrequency_calls_append:
  "setFrequency_calls (xs @ ys) = setFrequency_calls xs @ setFrequency_calls ys"
  by (induction xs rule: setFrequency_calls.induct) simp_all

lemma toggleOutput_keeps:
  "isFrequencyDirty (toggleOutput s) = isFrequencyDirty s"
  "lastFreqUpdate (toggleOutput s) = lastFreqUpdate s"
  "setFrequency_calls (sigGen (toggleOutput s)) = setFrequency_calls (sigGen s)"
  by (simp_all add: toggleOutput_def setADSigMode_def sigGen_send_def Let_def
      setFrequency_calls_append)

lemma encBtn_tick_keeps:
  "isFrequencyDirty (encBtn_tick ev s) = isFrequencyDirty s"
  "lastFreqUpdate (encBtn_tick ev s) = lastFreqUpdate s"
  "setFrequency_calls (sigGen (encBtn_tick ev s)) = setFrequency_calls (sigGen s)"
  by (cases ev; cases "curDispFrame s";
      simp add: encBtn_tick_def encPress_def encDoublePress_def encLongPress_def
        toggleOutput_keeps setADChannel_def sigGen_send_def Let_def setFrequency_calls_append)+

lemma display_keeps:
  "isFrequencyDirty (if isDispDirty s then updateDisplay s else s) = isFrequencyDirty s"
  "lastFreqUpdate (if isDispDirty s then updateDisplay s else s) = lastFreqUpdate s"
  "sigGen (if isDispDirty s then updateDisplay s else s) = sigGen s"
  by (simp_all add: updateDisplay_def)

lemma loop_idle:
  "isFrequencyDirty (loop m ev now None s)
     = isFrequencyDirty (loop_RUNNING_FREQUENCY now (encBtn_tick ev s))"
  "lastFreqUpdate (loop m ev now None s)
     = lastFreqUpdate (loop_RUNNING_FREQUENCY now (encBtn_tick ev s))"
  "sigGen (loop m ev now None s) = sigGen (loop_RUNNING_FREQUENCY now (encBtn_tick ev s))"
  by (simp_all add: loop_def Let_def display_keeps)


lemma fresh_initial: "fresh (initial_state E)"
  by (simp add: fresh_def initial_state_def)

lemma setup_sketch_keeps:
  "isFrequencyDirty (fst (setup_sketch E e s)) = isFrequencyDirty s"
  "lastFreqUpdate (fst (setup_sketch E e s)) = lastFreqUpdate s"
  by (simp_all add: setup_sketch_def toggleOutput_keeps setADFreq_def setADChannel_def
      sigGen_send_def Let_def split: prod.splits)

lemma fresh_setup: "fresh (fst (setup_sketch E e (initial_state E)))"
  using fresh_initial [of E] by (simp add: fresh_def setup_sketch_keeps)

lemma loop_idle_early:
  assumes "fresh s" and "now \<le> freqUpdateDelay"
  shows "fresh (loop m ev now None s)"
    and "setFrequency_calls (sigGen (loop m ev now None s)) = setFrequency_calls (sigGen s)"
proof -
  let ?sb = "encBtn_tick ev s"
  have "now - lastFreqUpdate ?sb \<le> freqUpdateDelay"
    using assms by (simp add: fresh_def encBtn_tick_keeps)
  then have t: "loop_RUNNING_FREQUENCY now ?sb = ?sb" by (rule tick_early)
  show "fresh (loop m ev now None s)"
    using assms(1) by (simp add: fresh_def loop_idle t encBtn_tick_keeps)
  show "setFrequency_calls (sigGen (loop m ev now None s)) = setFrequency_calls (sigGen s)"
    by (simp add: loop_idle t encBtn_tick_keeps)
qed

lemma loop_idle_seq_early:
  assumes "fresh s" and "\<forall>(ev, n) \<in> set early. n \<le> freqUpdateDelay"
  shows "fresh (loop_idle_seq m early s) \<and>
    setFrequency_calls (sigGen (loop_idle_seq m early s)) = setFrequency_calls (sigGen s)"
  using assms
proof (induction early arbitrary: s)
  case Nil
  then show ?case by simp
next
  case (Cons it early)
  obtain ev n where it: "it = (ev, n)" by (cases it)
  have n: "n \<le> freqUpdateDelay" using Cons.prems(2) it by simp
  have f: "fresh (loop m ev n None s)"
    using Cons.prems(1) n by (rule loop_idle_early(1))
  have c: "setFrequency_calls (sigGen (loop m ev n None s)) = setFrequency_calls (sigGen s)"
    using Cons.prems(1) n by (rule loop_idle_early(2))
  have "fresh (loop_idle_seq m early (loop m ev n None s)) \<and>
      setFrequency_calls (sigGen (loop_idle_seq m early (loop m ev n None s)))
        = setFrequency_calls (sigGen (loop m ev n None s))"
    using f Cons.prems(2) by (intro Cons.IH) simp_all
  with c show ?case by (simp add: it)
qed

lemma loop_idle_late:
  assumes "fresh s" and "freqUpdateDelay < now"
  shows "\<not> isFrequencyDirty (loop m ev now None s)"
    and "setFrequency_calls (sigGen (loop m ev now None s))
      = setFrequency_calls (sigGen s)
          @ [(active_channel (encBtn_tick ev s), active_frequency (encBtn_tick ev s))]"
proof -
  let ?sb = "encBtn_tick ev s"
  have d: "isFrequencyDirty ?sb" and "freqUpdateDelay < now - lastFreqUpdate ?sb"
    using assms by (simp_all add: fresh_def encBtn_tick_keeps)
  then have t: "loop_RUNNING_FREQUENCY now ?sb =
      ?sb\<lparr>sigGen := sigGen ?sb @ [setFrequency (active_channel ?sb) (active_frequency ?sb)],
          isFrequencyDirty := False\<rparr>"
    by (rule tick_late)
  show "\<not> isFrequencyDirty (loop m ev now None s)"
    by (simp add: loop_idle t)
  show "setFrequency_calls (sigGen (loop m ev now None s))
      = setFrequency_calls (sigGen s) @ [(active_channel ?sb, active_frequency ?sb)]"
    by (simp add: loop_idle t setFrequency_calls_append encBtn_tick_keeps)
qed

lemma loop_idle_clean:
  assumes "\<not> isFrequencyDirty s"
  shows "\<not> isFrequencyDirty (loop m ev now None s)"
    and "setFrequency_calls (sigGen (loop m ev now None s)) = setFrequency_calls (sigGen s)"
proof -
  let ?sb = "encBtn_tick ev s"
  have "\<not> isFrequencyDirty ?sb" using assms by (simp add: encBtn_tick_keeps)
  then have t: "loop_RUNNING_FREQUENCY now ?sb = ?sb" by (rule tick_clean)
  show "\<not> isFrequencyDirty (loop m ev now None s)"
    using assms by (simp add: loop_idle t encBtn_tick_keeps)
  show "setFrequency_calls (sigGen (loop m ev now None s)) = setFrequency_calls (sigGen s)"
    by (simp add: loop_idle t encBtn_tick_keeps)
qed

lemma loop_idle_seq_clean:
  assumes "\<not> isFrequencyDirty s"
  shows "\<not> isFrequencyDirty (loop_idle_seq m later s) \<and>
    setFrequency_calls (sigGen (loop_idle_seq m later s)) = setFrequency_calls (sigGen s)"
  using assms
proof (induction later arbitrary: s)
  case Nil
  then show ?case by simp
next
  case (Cons it later)
  obtain ev n where it: "it = (ev, n)" by (cases it)
  have f: "\<not> isFrequencyDirty (loop m ev n None s)"
    using Cons.prems by (rule loop_idle_clean(1))
  have c: "setFrequency_calls (sigGen (loop m ev n None s)) = setFrequency_calls (sigGen s)"
    using Cons.prems by (rule loop_idle_clean(2))
  have "\<not> isFrequencyDirty (loop_idle_seq m later (loop m ev n None s)) \<and>
      setFrequency_calls (sigGen (loop_idle_seq m later (loop m ev n None s)))
        = setFrequency_calls (sigGen (loop m ev n None s))"
    using f by (rule Cons.IH)
  with c show ?case by (simp add: it)
qed


text \<open>
  Claim C10, for the sketch as it is configured (\<open>ENABLE_EEPROM\<close> is not defined). In
  the initial state the flag \<open>isFrequencyDirty\<close> is set, and the start-up leaves it set,
  with \<open>lastFreqUpdate\<close> at 0. Take iterations of \<open>loop\<close> in which the
  encoder does not move, whatever the button does: those up to 400 ms make no
  \<open>setFrequency\<close> call; the first one after more than 400 ms makes exactly one, for the
  active channel with its stored frequency, and clears the flag; the following ones make
  none and leave the flag cleared; a staging sets it again.
\<close>

theorem first_commit_after_start:
  "(\<forall>(ev, n) \<in> set early. n \<le> freqUpdateDelay) \<and> freqUpdateDelay < now \<longrightarrow>
   (let s0 = fst (setup_sketch False e (initial_state False));
        s1 = loop_idle_seq m early s0;
        sb = encBtn_tick ev s1;
        s2 = loop m ev now None s1;
        s3 = loop_idle_seq m later s2
    in isFrequencyDirty (initial_state False)
     \<and> setFrequency_calls (sigGen s1) = setFrequency_calls (sigGen s0)
     \<and> setFrequency_calls (sigGen s2)
         = setFrequency_calls (sigGen s0) @ [(active_channel sb, active_frequency sb)]
     \<and> \<not> isFrequencyDirty s2
     \<and> setFrequency_calls (sigGen s3) = setFrequency_calls (sigGen s2)
     \<and> \<not> isFrequencyDirty s3
     \<and> isFrequencyDirty (changeFreq rotDir t s3))"
proof (intro impI)
  let ?s0 = "fst (setup_sketch False e (initial_state False))"
  let ?s1 = "loop_idle_seq m early ?s0"
  let ?s2 = "loop m ev now None ?s1"
  let ?s3 = "loop_idle_seq m later ?s2"
  assume h: "(\<forall>(ev, n) \<in> set early. n \<le> freqUpdateDelay) \<and> freqUpdateDelay < now"
  have i: "isFrequencyDirty (initial_state False)"
    using fresh_initial [of False] by (simp add: fresh_def)
  have a: "fresh ?s1 \<and> setFrequency_calls (sigGen ?s1) = setFrequency_calls (sigGen ?s0)"
    using fresh_setup h by (intro loop_idle_seq_early) simp_all
  then have f1: "fresh ?s1" by simp
  have b: "\<not> isFrequencyDirty ?s2"
    using f1 h by (intro loop_idle_late(1)) simp_all
  have c: "setFrequency_calls (sigGen ?s2) = setFrequency_calls (sigGen ?s1)
      @ [(active_channel (encBtn_tick ev ?s1), active_frequency (encBtn_tick ev ?s1))]"
    using f1 h by (intro loop_idle_late(2)) simp_all
  have d: "\<not> isFrequencyDirty ?s3 \<and>
      setFrequency_calls (sigGen ?s3) = setFrequency_calls (sigGen ?s2)"
    using b by (rule loop_idle_seq_clean)
  show "let s0 = ?s0; s1 = loop_idle_seq m early s0; sb = encBtn_tick ev s1;
        s2 = loop m ev now None s1; s3 = loop_idle_seq m later s2
    in isFrequencyDirty (initial_state False)
     \<and> setFrequency_calls (sigGen s1) = setFrequency_calls (sigGen s0)
     \<and> setFrequency_calls (sigGen s2)
         = setFrequency_calls (sigGen s0) @ [(active_channel sb, active_frequency sb)]
     \<and> \<not> isFrequencyDirty s2
     \<and> setFrequency_calls (sigGen s3) = setFrequency_calls (sigGen s2)
     \<and> \<not> isFrequencyDirty s3
     \<and> isFrequencyDirty (changeFreq rotDir t s3)"
    unfolding Let_def using i a b c d by (simp add: changeFreq_staged)
qed

text \<open>
  The sketch started: an iteration at 300 ms and one at 2000 ms, which sends the
  frequency 10000 of channel 0 once more. (On the device the start screen holds the first
  iteration back until 2000 ms, so the first iteration is the one that commits.)
\<close>

theorem first_commit_after_start_witness:
  "(300 :: ulong) \<le> freqUpdateDelay
   \<and> freqUpdateDelay < 2000
   \<and> setFrequency_calls (sigGen (fst (setup_sketch False (\<lambda>a. 0xFF) (initial_state False))))
       = [(CHAN_0, 10000), (CHAN_1, 1000)]
   \<and> setFrequency_calls (sigGen (loop exact_libm NoEvent 2000 None
        (loop_idle_seq exact_libm [(NoEvent, 300)]
          (fst (setup_sketch False (\<lambda>a. 0xFF) (initial_state False))))))
       = [(CHAN_0, 10000), (CHAN_1, 1000), (CHAN_0, 10000)]
   \<and> \<not> isFrequencyDirty (loop exact_libm NoEvent 2000 None
        (loop_idle_seq exact_libm [(NoEvent, 300)]
          (fst (setup_sketch False (\<lambda>a. 0xFF) (initial_state False)))))"
proof -
  let ?s0 = "fst (setup_sketch False (\<lambda>a. 0xFF) (initial_state False))"
  let ?s1 = "loop_idle_seq exact_libm [(NoEvent, 300)] ?s0"
  let ?s2 = "loop exact_libm NoEvent 2000 None ?s1"
  have h: "(\<forall>(ev, n) \<in> set [(NoEvent, 300 :: ulong)]. n \<le> freqUpdateDelay)
      \<and> freqUpdateDelay < 2000"
    by (simp add: freqUpdateDelay_def)
  have s0: "?s0 = \<lparr>settings = \<lparr>frequency = (10000, 1000), freqStep = 1000, waveform = SIN,
        channel = False, checksum = 0\<rparr>,
      isDispDirty = True, isFrequencyDirty = True, outputStat = OFF, curMenuSel = Function,
      lastFreqUpdate = 0, curDispFrame = HOME_PAGE, curRow = 0,
      sigGen = [setFrequency CHAN_0 10000, setFrequency CHAN_1 1000,
                setActiveFrequency CHAN_0, setMode MODE_OFF],
      invalid_bool_read = False\<rparr>"
    by (simp add: setup_sketch_def initial_state_def initial_settings_def channelFreqs_def
        encFreqStep_def setADFreq_def setADChannel_def toggleOutput_def sigGen_send_def Let_def)
  have s1: "?s1 = ?s0\<lparr>isDispDirty := False\<rparr>"
    unfolding s0
    by (simp add: loop_def encBtn_tick_def loop_RUNNING_FREQUENCY_def freqUpdateDelay_def
        updateDisplay_def Let_def)
  have v: "setFrequency_calls (sigGen ?s0) = [(CHAN_0, 10000), (CHAN_1, 1000)]"
    unfolding s0 by simp
  have w: "active_channel (encBtn_tick NoEvent ?s1) = CHAN_0"
      "active_frequency (encBtn_tick NoEvent ?s1) = 10000"
    unfolding s1 unfolding s0
    by (simp_all add: encBtn_tick_def active_channel_def active_frequency_def frequency_at_def)
  have T: "setFrequency_calls (sigGen ?s2)
         = setFrequency_calls (sigGen ?s0)
            @ [(active_channel (encBtn_tick NoEvent ?s1), active_frequency (encBtn_tick NoEvent ?s1))]
     \<and> \<not> isFrequencyDirty ?s2"
    using h first_commit_after_start
      [of "[(NoEvent, 300)]" 2000 "\<lambda>a. 0xFF" exact_libm NoEvent "[]" CLOCKWISE 0]
    unfolding Let_def by blast
  from T have "setFrequency_calls (sigGen ?s2)
         = setFrequency_calls (sigGen ?s0)
            @ [(active_channel (encBtn_tick NoEvent ?s1), active_frequency (encBtn_tick NoEvent ?s1))]"
    by (rule conjunct1)
  also have "\<dots> = [(CHAN_0, 10000), (CHAN_1, 1000), (CHAN_0, 10000)]"
    unfolding v w by simp
  finally have c: "setFrequency_calls (sigGen ?s2)
      = [(CHAN_0, 10000), (CHAN_1, 1000), (CHAN_0, 10000)]" .
  from T have d: "\<not> isFrequencyDirty ?s2" by (rule conjunct2)
  have g: "(300 :: ulong) \<le> freqUpdateDelay \<and> freqUpdateDelay < 2000"
    by (simp add: freqUpdateDelay_def)
  from g v c d show ?thesis by blast
qed

end
